theory Spec2Isabelle
  imports Complex_Main "HOL-Library.Sublist"
begin

section \<open>React children and slot extraction\<close>

text \<open>
  The components of the library are functions from a props object to a React element.
  The children of a component are \<^verbatim>\<open>undefined\<close>, one node, or an array of
  nodes that may hold arrays of nodes one level down. A node is a React element (a
  component type together with its props) or a piece of text. The marker components
  \<^verbatim>\<open>Panel.Header\<close>, \<^verbatim>\<open>Panel.Footer\<close> and \<^verbatim>\<open>Legend.Item\<close>
  are the slot type tags; every other component is \<open>Other_Component\<close> with its display
  name. The props of the elements of one tree have one type \<open>'p\<close>.
\<close>

datatype comp_type = Panel_Header | Panel_Footer | Legend_Item | Other_Component string

datatype 'p element = Element (etype: comp_type) (eprops: 'p)

datatype 'p node = Elem "'p element" | TextNode string

datatype 'p child = Single "'p node" | Nested "'p node list"

datatype 'p children = NoChildren | OneChild "'p node" | ChildArray "'p child list"

fun child_nodes :: "'p child \<Rightarrow> 'p node list" where
  "child_nodes (Single n) = [n]"
| "child_nodes (Nested ns) = ns"

fun flatten_children :: "'p children \<Rightarrow> 'p node list" where
  "flatten_children NoChildren = []"
| "flatten_children (OneChild n) = [n]"
| "flatten_children (ChildArray cs) = concat (map child_nodes cs)"

fun carries :: "comp_type \<Rightarrow> 'p node \<Rightarrow> bool" where
  "carries T (Elem e) = (etype e = T)"
| "carries T (TextNode s) = False"

text \<open>
  Modelled from the spec: the filter of \<^verbatim>\<open>findTypes\<close>, a loop over the
  flattened children that keeps the elements whose type is the tag, in their order of
  occurrence, and drops everything else.
\<close>

fun filterTypes :: "'p node list \<Rightarrow> comp_type \<Rightarrow> 'p element list" where
  "filterTypes [] T = []"
| "filterTypes (Elem e # ns) T =
     (if etype e = T then e # filterTypes ns T else filterTypes ns T)"
| "filterTypes (TextNode s # ns) T = filterTypes ns T"

text \<open>
  Modelled from the spec: \<^verbatim>\<open>findTypes\<close> of \<^verbatim>\<open>util/component-types\<close>
  (imported by \<^verbatim>\<open>Panel.tsx\<close> and by the Legend, its body is not among the
  sources). The spec's \<^verbatim>\<open>extractSlots(children, slotTypeTag)\<close>: the children are
  flattened to one ordered sequence and filtered by the tag, and no match gives the empty
  sequence. The callers pass the whole props object; the model takes the children, the
  only part of it the spec lets the extraction read.
\<close>

definition findTypes :: "'p children \<Rightarrow> comp_type \<Rightarrow> 'p element list" where
  "findTypes cs T = filterTypes (flatten_children cs) T"

section \<open>Class names\<close>

text \<open>
  The arguments of the naming utility: a string, a mapping of conditional modifier names
  to booleans, or \<^verbatim>\<open>undefined\<close>.
\<close>

datatype cx_arg = CStr string | CMap "(string \<times> bool) list" | CUndefined

fun optStr :: "string option \<Rightarrow> cx_arg" where
  "optStr None = CUndefined"
| "optStr (Some s) = CStr s"

text \<open>
  Modelled from the spec: the substitution of \<^verbatim>\<open>lucidClassNames\<close>. As the call
  sites show, \<^verbatim>\<open>&\<close> in a name stands for the identifier the utility was bound
  to, and \<^verbatim>\<open>&\<close> in that identifier for the library's prefix.
\<close>

definition amp :: "string \<Rightarrow> string \<Rightarrow> string" where
  "amp base s = concat (map (\<lambda>c. if c = CHR ''&'' then base else [c]) s)"

text \<open>
  Modelled from the spec: the names one argument of \<^verbatim>\<open>lucidClassNames\<close>
  contributes: the string, or the modifier names whose condition is true.
\<close>

fun cx_tokens :: "cx_arg \<Rightarrow> string list" where
  "cx_tokens (CStr s) = [s]"
| "cx_tokens (CMap m) = map fst (filter snd m)"
| "cx_tokens CUndefined = []"

text \<open>
  Modelled from the spec: \<^verbatim>\<open>lucidClassNames.bind\<close>, the identifier a
  component's naming utility is bound to.
\<close>

definition bind :: "string \<Rightarrow> string" where
  "bind b = amp ''lucid'' b"

text \<open>
  Modelled from the spec: \<^verbatim>\<open>lucidClassNames\<close> of \<^verbatim>\<open>util/style-helpers\<close>
  (not among the sources). The naming utility takes a base identifier and its arguments
  and composes one class name, deterministic and order-stable. The model keeps the
  composed class name as the list of its tokens, in the order of the arguments.
\<close>

definition cx :: "string \<Rightarrow> cx_arg list \<Rightarrow> string list" where
  "cx base args = map (amp base) (concat (map cx_tokens args))"

type_synonym attrs = "(string \<times> string) list"

text \<open>
  Modelled from the spec: \<^verbatim>\<open>omitProps\<close> of \<^verbatim>\<open>util/component-types\<close>
  (not among the sources). The attributes that are not declared options of the component
  are forwarded to the root element; the pass-through attributes are an association list.
\<close>

definition omitProps :: "attrs \<Rightarrow> string list \<Rightarrow> attrs" where
  "omitProps passThroughs keys = filter (\<lambda>(k, v). k \<notin> set keys) passThroughs"

section \<open>Legend\<close>

text \<open>
  The Legend component (the source file whose name is not known,
  \<^verbatim>\<open>src/unnamed/part_000\<close>): \<^verbatim>\<open>handleItemClick\<close> and \<^verbatim>\<open>Legend\<close>.
  A callback is known by its identity; an event and the nested content of an item are
  opaque. Calling a callback is an effect: a handler returns the list of the calls it
  made, each with the callback and its arguments \<^verbatim>\<open>(index, { props, event })\<close>.
  Optional booleans are read for their truth only, so \<^verbatim>\<open>undefined\<close> is
  \<open>False\<close>. The props are modelled after React has filled in \<^verbatim>\<open>defaultProps\<close>.
\<close>

type_synonym callback = nat
type_synonym event = nat
type_synonym content = string

record item_props =
  hasPoint :: bool
  hasLine :: bool
  color :: "string option"
  pointKind :: "int option"
  onClick :: "callback option"
  item_children :: content
  item_className :: "string option"

datatype call = Call callback nat event item_props

record legend_props =
  className :: "string option"
  orient :: string
  hasBorders :: bool
  isReversed :: bool
  legend_children :: "item_props children"
  passThroughs :: attrs

record legend_point =
  point_x :: nat
  point_y :: nat
  point_color :: "string option"
  point_kind :: int

record legend_line =
  line_d :: string
  line_color :: "string option"

record svg =
  svg_className :: "string list"
  width :: nat
  height :: nat
  svg_point :: "legend_point option"
  svg_line :: "legend_line option"

record li =
  li_key :: nat
  li_className :: "string list"
  li_onClick :: "event \<Rightarrow> call list"
  li_indicator :: "svg option"
  li_children :: content

record ul =
  ul_attrs :: attrs
  ul_className :: "string list"
  ul_items :: "li list"

definition POINT_SIZE :: nat where
  "POINT_SIZE = 12"

definition LINE_WIDTH :: nat where
  "LINE_WIDTH = 22"

definition Legend_propTypes :: "string list" where
  "Legend_propTypes = [''Item'', ''className'', ''orient'', ''hasBorders'', ''isReversed'']"

definition handleItemClick :: "nat \<Rightarrow> item_props \<Rightarrow> event \<Rightarrow> call list" where
  "handleItemClick index props event =
     (case onClick props of
        None \<Rightarrow> []
      | Some f \<Rightarrow> [Call f index event props])"

text \<open>
  One row of the legend: the body of the function mapped over \<^verbatim>\<open>itemProps\<close>.
  \<^verbatim>\<open>LINE_WIDTH / 2\<close> and \<^verbatim>\<open>POINT_SIZE / 2\<close> are 11 and 6, and the path
  of the line is the template string with both constants filled in.
\<close>

definition Legend_item :: "item_props list \<Rightarrow> bool \<Rightarrow> nat \<times> item_props \<Rightarrow> li" where
  "Legend_item itemProps hasSomeLines = (\<lambda>(index, item).
     \<lparr> li_key = index,
       li_className = cx (bind ''&-Legend'') [optStr (item_className item), CStr ''&-Item''],
       li_onClick = handleItemClick index (itemProps ! index),
       li_indicator =
         (if hasPoint item \<or> hasLine item then
            Some \<lparr> svg_className = cx (bind ''&-Legend'') [CStr ''&-Item-indicator''],
                   width = (if hasLine item \<or> hasSomeLines then LINE_WIDTH else POINT_SIZE),
                   height = POINT_SIZE,
                   svg_point =
                     (if hasPoint item then
                        Some \<lparr> point_x = (if hasLine item \<or> hasSomeLines
                                            then LINE_WIDTH div 2 else POINT_SIZE div 2),
                               point_y = POINT_SIZE div 2,
                               point_color = color item,
                               point_kind = (case pointKind item of None \<Rightarrow> 1 | Some k \<Rightarrow> k) \<rparr>
                      else None),
                   svg_line =
                     (if hasLine item then
                        Some \<lparr> line_d = ''M0,6 L22,6'', line_color = color item \<rparr>
                      else None) \<rparr>
          else None),
       li_children = item_children item \<rparr>)"

definition Legend :: "legend_props \<Rightarrow> ul" where
  "Legend props =
     (let isHorizontal = (orient props = ''horizontal'');
          isVertical = (orient props = ''vertical'');
          itemProps = map eprops (findTypes (legend_children props) Legend_Item);
          hasSomeLines = (isVertical \<and> list_ex hasLine itemProps)
      in \<lparr> ul_attrs = omitProps (passThroughs props) Legend_propTypes,
            ul_className = cx (bind ''&-Legend'')
              [CStr ''&'',
               CMap [(''&-is-horizontal'', isHorizontal),
                     (''&-is-vertical'', isVertical),
                     (''&-has-borders'', hasBorders props),
                     (''&-is-reversed'', isReversed props)],
               optStr (className props)],
            ul_items = map (Legend_item itemProps hasSomeLines) (enumerate 0 itemProps) \<rparr>)"

text \<open>The item props a legend extracts from its children, in declaration order.\<close>

definition Legend_itemProps :: "legend_props \<Rightarrow> item_props list" where
  "Legend_itemProps props = map eprops (findTypes (legend_children props) Legend_Item)"

section \<open>Banner\<close>

text \<open>
  The component \<^verbatim>\<open>Banner\<close> of \<^verbatim>\<open>components/Banner/Banner.tsx\<close>.
  The icon of a banner and the props of the close icon are opaque. The close icon's
  handler calls \<^verbatim>\<open>onClose\<close> with the event and the icon's props; the default
  \<^verbatim>\<open>onClose\<close> is a no-op, which is a callback like any other here. The kind is
  a string: the type of the prop lists six tokens, and nothing checks it when the
  component runs.
\<close>

datatype close_call = CloseCall callback event content

record banner_props =
  icon :: "content option"
  isCloseable :: bool
  isFilled :: bool
  isSmall :: bool
  kind :: string
  onClose :: callback
  isClosed :: bool
  banner_className :: "string option"
  banner_children :: content
  banner_passThroughs :: attrs

record close_icon =
  close_isClickable :: bool
  close_size :: nat
  close_className :: "string list"
  close_onClick :: "event \<Rightarrow> content \<Rightarrow> close_call list"

record banner_section =
  section_attrs :: attrs
  section_className :: "string list"
  section_icon :: "(string list \<times> content) option"
  section_content :: "string list \<times> content"
  section_close :: "close_icon option"

record transition_group =
  transitionName :: "string list"
  transitionEnterTimeout :: nat
  transitionLeaveTimeout :: nat
  group_child :: "banner_section option"

definition Banner_propTypes :: "string list" where
  "Banner_propTypes = [''icon'', ''isCloseable'', ''isFilled'', ''isSmall'', ''className'',
     ''children'', ''kind'', ''onClose'', ''isClosed'']"

definition handleClose :: "banner_props \<Rightarrow> event \<Rightarrow> content \<Rightarrow> close_call list" where
  "handleClose props event iconProps = [CloseCall (onClose props) event iconProps]"

definition Banner :: "banner_props \<Rightarrow> transition_group" where
  "Banner props =
     (let displayedIcon = icon props
      in \<lparr> transitionName = cx (bind ''&-Banner'') [CStr ''&''],
            transitionEnterTimeout = 300,
            transitionLeaveTimeout = 300,
            group_child =
              (if \<not> isClosed props then
                 Some \<lparr> section_attrs = omitProps (banner_passThroughs props) Banner_propTypes,
                        section_className = cx (bind ''&-Banner'')
                          [CStr ''&'',
                           CMap [(''&-has-icon'', displayedIcon \<noteq> None),
                                 (''&-has-close'', isCloseable props),
                                 (''&-primary'', kind props = ''primary''),
                                 (''&-success'', kind props = ''success''),
                                 (''&-warning'', kind props = ''warning''),
                                 (''&-danger'', kind props = ''danger''),
                                 (''&-info'', kind props = ''info''),
                                 (''&-small'', isSmall props),
                                 (''&-filled'', isFilled props)],
                           optStr (banner_className props)],
                        section_icon =
                          (case displayedIcon of
                             None \<Rightarrow> None
                           | Some i \<Rightarrow> Some (cx (bind ''&-Banner'') [CStr ''&-icon''], i)),
                        section_content =
                          (cx (bind ''&-Banner'') [CStr ''&-content''], banner_children props),
                        section_close =
                          (if isCloseable props then
                             Some \<lparr> close_isClickable = True,
                                    close_size = 8,
                                    close_className = cx (bind ''&-Banner'') [CStr ''&-close''],
                                    close_onClick = handleClose props \<rparr>
                           else None) \<rparr>
               else None) \<rparr>)"

text \<open>The class names of the modifiers that stand for a kind, and for an orientation.\<close>

definition Banner_kind_classes :: "string list" where
  "Banner_kind_classes = map (amp (bind ''&-Banner''))
     [''&-primary'', ''&-success'', ''&-warning'', ''&-danger'', ''&-info'']"

definition Banner_kinds :: "string list" where
  "Banner_kinds = [''primary'', ''success'', ''warning'', ''danger'', ''info'', ''default'']"

definition Legend_orient_classes :: "string list" where
  "Legend_orient_classes = map (amp (bind ''&-Legend'')) [''&-is-horizontal'', ''&-is-vertical'']"

definition Legend_orients :: "string list" where
  "Legend_orients = [''horizontal'', ''vertical'']"

section \<open>Panel\<close>

text \<open>
  The component \<^verbatim>\<open>Panel\<close> of \<^verbatim>\<open>components/Panel/Panel.tsx\<close>.
  The props of a \<^verbatim>\<open>Panel.Header\<close> or \<^verbatim>\<open>Panel.Footer\<close> marker: a
  description, nested content, a class name, and whatever other attributes the author
  wrote. The panel spreads them onto the region it renders and then sets the region's
  class name, so a region is the marker's props together with the class name that
  replaces theirs. The children of the panel go into the content section as they are.
  The booleans are the props after their defaults.
\<close>

record slot_props =
  description :: "string option"
  slot_children :: content
  slot_className :: "string option"
  slot_rest :: attrs

record panel_props =
  panel_children :: "slot_props children"
  panel_className :: "string option"
  isGutterless :: bool
  hasMargin :: bool
  style :: "string option"
  isScrollable :: bool
  panel_passThroughs :: attrs

record region =
  region_spread :: slot_props
  region_className :: "string list"

record panel_div =
  div_attrs :: attrs
  div_className :: "string list"
  div_style :: "string option"
  div_header :: "region option"
  div_content :: "string list \<times> slot_props children"
  div_footer :: "region option"

definition Panel_propTypes :: "string list" where
  "Panel_propTypes = [''className'', ''Header'', ''Footer'', ''children'', ''isGutterless'',
     ''hasMargin'', ''style'', ''isScrollable'']"

text \<open>\<^verbatim>\<open>_.first\<close>: the first element of an array, \<^verbatim>\<open>undefined\<close> when it is empty.\<close>

fun lodash_first :: "'a list \<Rightarrow> 'a option" where
  "lodash_first [] = None"
| "lodash_first (x # xs) = Some x"

definition Panel :: "panel_props \<Rightarrow> panel_div" where
  "Panel props =
     (let headerChildProp = lodash_first (map eprops (findTypes (panel_children props) Panel_Header));
          footerChildProp = lodash_first (map eprops (findTypes (panel_children props) Panel_Footer))
      in \<lparr> div_attrs = omitProps (panel_passThroughs props) Panel_propTypes,
            div_className = cx (bind ''&-Panel'')
              [CStr ''&'',
               optStr (panel_className props),
               CMap [(''&-is-not-gutterless'', \<not> isGutterless props),
                     (''&-has-margin'', hasMargin props),
                     (''&-is-scrollable'', isScrollable props)]],
            div_style = style props,
            div_header =
              (case headerChildProp of
                 Some h \<Rightarrow> Some \<lparr> region_spread = h,
                                  region_className = cx (bind ''&-Panel'')
                                    [CStr ''&-Header'', optStr (slot_className h)] \<rparr>
               | None \<Rightarrow> None),
            div_content = (cx (bind ''&-Panel'') [CStr ''&-content''], panel_children props),
            div_footer =
              (case footerChildProp of
                 Some f \<Rightarrow> Some \<lparr> region_spread = f,
                                  region_className = cx (bind ''&-Panel'')
                                    [CStr ''&-Footer'', optStr (slot_className f)] \<rparr>
               | None \<Rightarrow> None) \<rparr>)"

text \<open>
  What the host shows of a panel. The three marker components are the function
  \<^verbatim>\<open>(): null => null\<close>: an element of a marker type among the children shows
  nothing. Every other node is shown as it is, in the order of the flattened children.
\<close>

fun renders_null :: "'p node \<Rightarrow> bool" where
  "renders_null (Elem e) =
     (case etype e of
        Panel_Header \<Rightarrow> True
      | Panel_Footer \<Rightarrow> True
      | Legend_Item \<Rightarrow> True
      | Other_Component n \<Rightarrow> False)"
| "renders_null (TextNode s) = False"

definition shown_children :: "'p children \<Rightarrow> 'p node list" where
  "shown_children cs = filter (\<lambda>n. \<not> renders_null n) (flatten_children cs)"

record shown_panel =
  shown_attrs :: attrs
  shown_className :: "string list"
  shown_style :: "string option"
  shown_header :: "region option"
  shown_content :: "string list \<times> slot_props node list"
  shown_footer :: "region option"

definition show_Panel :: "panel_div \<Rightarrow> shown_panel" where
  "show_Panel d =
     \<lparr> shown_attrs = div_attrs d,
       shown_className = div_className d,
       shown_style = div_style d,
       shown_header = div_header d,
       shown_content = (fst (div_content d), shown_children (snd (div_content d))),
       shown_footer = div_footer d \<rparr>"

text \<open>
  The children with every instance of a marker type after the first one taken out:
  \<open>later_dropped T seen ns\<close> keeps the first node that carries \<open>T\<close> (none when
  \<open>seen\<close>) and every node that does not carry it.
\<close>

fun later_dropped :: "comp_type \<Rightarrow> bool \<Rightarrow> 'p node list \<Rightarrow> 'p node list" where
  "later_dropped T seen [] = []"
| "later_dropped T seen (n # ns) =
     (if carries T n then (if seen then later_dropped T True ns else n # later_dropped T True ns)
      else n # later_dropped T seen ns)"

definition without_later :: "comp_type \<Rightarrow> 'p children \<Rightarrow> 'p children" where
  "without_later T cs = ChildArray (map Single (later_dropped T False (flatten_children cs)))"


section \<open>Points\<close>

text \<open>
  The component \<^verbatim>\<open>Points\<close> and its \<^verbatim>\<open>isValidSeries\<close>, the second
  module of \<^verbatim>\<open>components/Panel/Panel.tsx\<close>.
  A JavaScript number is a finite value, \<^verbatim>\<open>NaN\<close> or an infinity; a finite value
  is the real number the double stands for. A cell of a data row is a number, a string, a
  date (its time value) or \<^verbatim>\<open>undefined\<close>, which is also what reading a missing
  field gives.
\<close>

datatype jsnum = Fin real | NaN | PosInf | NegInf

datatype jsval = JUndefined | JNum jsnum | JStr string | JDate real

type_synonym row = "(string \<times> jsval) list"

definition row_get :: "row \<Rightarrow> string \<Rightarrow> jsval" where
  "row_get r k = (case map_of r k of None \<Rightarrow> JUndefined | Some v \<Rightarrow> v)"

text \<open>
  What the language's runtime computes is a parameter of the model: the number a string
  stands for, and the sum of two finite numbers, which the runtime rounds to a double and
  which is an infinity when it overflows. The sum of two numbers of which one is not
  finite follows the rules of the arithmetic; comparison is exact.
\<close>

record runtime =
  str_number :: "string \<Rightarrow> jsnum"
  num_add :: "real \<Rightarrow> real \<Rightarrow> jsnum"

fun js_add :: "runtime \<Rightarrow> jsnum \<Rightarrow> jsnum \<Rightarrow> jsnum" where
  "js_add env (Fin a) (Fin b) = num_add env a b"
| "js_add env NaN b = NaN"
| "js_add env a NaN = NaN"
| "js_add env PosInf NegInf = NaN"
| "js_add env NegInf PosInf = NaN"
| "js_add env PosInf b = PosInf"
| "js_add env NegInf b = NegInf"
| "js_add env a PosInf = PosInf"
| "js_add env a NegInf = NegInf"

fun js_gt :: "jsnum \<Rightarrow> jsnum \<Rightarrow> bool" where
  "js_gt (Fin a) (Fin b) = (a > b)"
| "js_gt NaN b = False"
| "js_gt a NaN = False"
| "js_gt PosInf b = (b \<noteq> PosInf)"
| "js_gt NegInf b = False"
| "js_gt (Fin a) PosInf = False"
| "js_gt (Fin a) NegInf = True"

fun isNaN :: "jsnum \<Rightarrow> bool" where
  "isNaN NaN = True"
| "isNaN n = False"

text \<open>\<^verbatim>\<open>_.isFinite\<close> and \<^verbatim>\<open>_.isDate\<close>.\<close>

fun isFinite :: "jsval \<Rightarrow> bool" where
  "isFinite (JNum (Fin a)) = True"
| "isFinite v = False"

fun isDate :: "jsval \<Rightarrow> bool" where
  "isDate (JDate t) = True"
| "isDate v = False"

text \<open>
  A number read as a condition is false when it is \<^verbatim>\<open>undefined\<close>, zero or
  \<^verbatim>\<open>NaN\<close>; \<^verbatim>\<open>a || b\<close> is \<open>a\<close> when \<open>a\<close> is true, and \<open>b\<close> otherwise.
\<close>

fun truthy :: "jsnum option \<Rightarrow> bool" where
  "truthy None = False"
| "truthy (Some NaN) = False"
| "truthy (Some (Fin a)) = (a \<noteq> 0)"
| "truthy (Some n) = True"

definition js_or :: "jsnum option \<Rightarrow> jsnum option \<Rightarrow> jsnum option" where
  "js_or a b = (if truthy a then a else b)"

text \<open>
  \<^verbatim>\<open>_.max\<close> of an array of numbers: a loop that keeps the first value that is not
  \<^verbatim>\<open>NaN\<close> and then every value greater than the one it holds;
  \<^verbatim>\<open>undefined\<close> for an array with no such value. \<^verbatim>\<open>_.last\<close> of an array
  is \<^verbatim>\<open>undefined\<close> when the array is empty.
\<close>

fun max_step :: "jsnum option \<Rightarrow> jsnum \<Rightarrow> jsnum option" where
  "max_step None current = (if isNaN current then None else Some current)"
| "max_step (Some computed) current =
     (if js_gt current computed then Some current else Some computed)"

definition lodash_max :: "jsnum list \<Rightarrow> jsnum option" where
  "lodash_max xs = foldl max_step None xs"

fun lodash_last :: "'a list \<Rightarrow> 'a option" where
  "lodash_last [] = None"
| "lodash_last xs = Some (last xs)"

text \<open>The unary plus of the stack generator's accessor.\<close>

fun to_number :: "runtime \<Rightarrow> jsval \<Rightarrow> jsnum" where
  "to_number env JUndefined = NaN"
| "to_number env (JNum n) = n"
| "to_number env (JStr s) = str_number env s"
| "to_number env (JDate t) = Fin t"

text \<open>
  Modelled from the spec: \<^verbatim>\<open>groupByFields\<close> of \<^verbatim>\<open>util/chart-helpers\<close>
  (not among the sources), a pure function from the rows and the field names to one
  series per field with one entry per row: the cell of the row at the field.
\<close>

definition groupByFields :: "row list \<Rightarrow> string list \<Rightarrow> jsval list list" where
  "groupByFields rows fieldNames = map (\<lambda>field. map (\<lambda>r. row_get r field) rows) fieldNames"

text \<open>
  Modelled from the spec: the stack generator \<^verbatim>\<open>d3Shape.stack().keys(yFields)\<close>
  of the d3 library, a pure function from the rows and the field names to one series of
  cumulative sums per field with one entry per row. With its default order and offset the
  entry for field \<open>i\<close> and row \<open>j\<close> is the pair \<open>[y0, y1]\<close>: \<open>y0\<close> is 0 for the
  first field, and for a later one the \<open>y1\<close> of the field before at that row (its
  \<open>y0\<close> when that \<open>y1\<close> is \<^verbatim>\<open>NaN\<close>); \<open>y1\<close> is the row's value of the
  field, read as a number, for the first field, and that value plus \<open>y0\<close> for a later
  one. \<open>stack_point\<close> is the entry after the entry \<open>p\<close> of the field before,
  \<open>stack_next\<close> the series of the later fields, and \<open>stack\<close> the generator.
\<close>

definition stack_point :: "runtime \<Rightarrow> string \<Rightarrow> (jsnum \<times> jsnum) \<times> row \<Rightarrow> jsnum \<times> jsnum" where
  "stack_point env k = (\<lambda>(p, r).
     (let y0 = (if isNaN (snd p) then fst p else snd p)
      in (y0, js_add env (to_number env (row_get r k)) y0)))"

fun stack_next ::
  "runtime \<Rightarrow> (jsnum \<times> jsnum) list \<Rightarrow> string list \<Rightarrow> row list \<Rightarrow> (jsnum \<times> jsnum) list list"
where
  "stack_next env s0 [] rows = []"
| "stack_next env s0 (k # ks) rows =
     (let s1 = map (stack_point env k) (zip s0 rows)
      in s1 # stack_next env s1 ks rows)"

fun stack :: "runtime \<Rightarrow> string list \<Rightarrow> row list \<Rightarrow> (jsnum \<times> jsnum) list list" where
  "stack env [] rows = []"
| "stack env (k # ks) rows =
     (let s0 = map (\<lambda>r. (Fin 0, to_number env (row_get r k))) rows
      in s0 # stack_next env s0 ks rows)"

text \<open>
  An entry of a transformed series is the pair \<open>[y0, y1]\<close> of the stack generator or the
  cell of a grouped series. A d3 scale is opaque: a domain, and a function of the domain
  and a value.
\<close>

datatype series = SPair jsnum jsnum | SVal jsval

fun isValidSeries :: "series \<Rightarrow> bool" where
  "isValidSeries (SPair y0 y1) = (let last = JNum y1 in isFinite last \<or> isDate last)"
| "isValidSeries (SVal v) = (isFinite v \<or> isDate v)"

record yscale =
  ydomain :: "jsnum option list"
  yfun :: "jsnum option list \<Rightarrow> jsval \<Rightarrow> jsnum option"

text \<open>
  The value of a color prop: a string, or some value that is no string. A color map is
  the object the caller passes, known by what \<^verbatim>\<open>_.get\<close> resolves in it at a
  path, own keys, inherited properties and dotted paths alike: a partial map, with no
  value where \<^verbatim>\<open>_.get\<close> resolves \<^verbatim>\<open>undefined\<close>. The color offset is a
  number.
\<close>

datatype color_value = ColorString string | OtherValue string

record points_props =
  points_className :: "string option"
  data :: "row list"
  palette :: "string list"
  colorMap :: "(string \<rightharpoonup> color_value) option"
  colorOffset :: jsnum
  xField :: string
  hasStroke :: bool
  xScale :: "jsval \<Rightarrow> jsnum option"
  yFields :: "string list"
  yStackedMax :: "jsnum option"
  isStacked :: bool
  yScale :: yscale
  points_passThroughs :: attrs

record point =
  mark_key :: "nat \<times> nat"
  mark_x :: "jsnum option"
  mark_y :: "jsnum option"
  mark_hasStroke :: bool
  mark_kind :: jsnum
  mark_color :: "color_value option"

record g =
  g_attrs :: attrs
  g_className :: "string list"
  g_yScale :: yscale
  g_marks :: "point option list list"

datatype error = TypeError

definition Points_propTypes :: "string list" where
  "Points_propTypes = [''className'', ''palette'', ''colorMap'', ''data'', ''xScale'', ''yScale'',
     ''xField'', ''yFields'', ''yStackedMax'', ''colorOffset'', ''hasStroke'', ''isStacked'']"

text \<open>
  Reading an array at an index: \<^verbatim>\<open>undefined\<close> outside the array. The remainder
  \<^verbatim>\<open>a % n\<close> of a number by a length is exact: for a finite \<open>a\<close> and \<open>n\<close> other
  than 0 it has the sign of \<open>a\<close> and the magnitude of \<open>|a|\<close> less the greatest
  multiple of \<open>n\<close> below it, and it is \<^verbatim>\<open>NaN\<close> otherwise. An array read at a
  number has an element there when the number is an integer from 0 to below the length,
  and is \<^verbatim>\<open>undefined\<close> at every other number. \<^verbatim>\<open>_.get\<close> gives the
  default when the object is \<^verbatim>\<open>undefined\<close> or resolves nothing at the path; the
  path \<^verbatim>\<open>undefined\<close> is the key of that name.
\<close>

definition js_nth :: "'a list \<Rightarrow> nat \<Rightarrow> 'a option" where
  "js_nth xs i = (if i < length xs then Some (xs ! i) else None)"

fun js_rem :: "jsnum \<Rightarrow> nat \<Rightarrow> jsnum" where
  "js_rem (Fin a) n =
     (if n = 0 then NaN
      else Fin (sgn a * (\<bar>a\<bar> - real n * of_int \<lfloor>\<bar>a\<bar> / real n\<rfloor>)))"
| "js_rem a n = NaN"

fun js_index :: "'a list \<Rightarrow> jsnum \<Rightarrow> 'a option" where
  "js_index xs (Fin a) =
     (if 0 \<le> a \<and> a = of_int \<lfloor>a\<rfloor> then js_nth xs (nat \<lfloor>a\<rfloor>) else None)"
| "js_index xs a = None"

definition lodash_get ::
  "(string \<rightharpoonup> color_value) option \<Rightarrow> string option \<Rightarrow> color_value option \<Rightarrow> color_value option"
where
  "lodash_get obj path dflt =
     (case obj of
        None \<Rightarrow> dflt
      | Some m \<Rightarrow>
          (case m (case path of None \<Rightarrow> ''undefined'' | Some k \<Rightarrow> k) of
             None \<Rightarrow> dflt
           | Some v \<Rightarrow> Some v))"

text \<open>The first error of a list of results, or all the values.\<close>

fun collect :: "(error + 'a) list \<Rightarrow> error + 'a list" where
  "collect [] = Inr []"
| "collect (Inl e # rs) = Inl e"
| "collect (Inr v # rs) = (case collect rs of Inl e \<Rightarrow> Inl e | Inr vs \<Rightarrow> Inr (v # vs))"

text \<open>
  The transformed data, and the new domain of the y scale: the first bound of the old
  domain, \<^verbatim>\<open>yScale.domain()[0]\<close>, and the upper bound. The upper bound is computed
  only when the data is stacked, where the transformed data is the output of the stack
  generator: its last series, each pair flattened into its two numbers.
\<close>

definition transformedData :: "runtime \<Rightarrow> points_props \<Rightarrow> series list list" where
  "transformedData env props =
     (if isStacked props
      then map (map (\<lambda>(y0, y1). SPair y0 y1)) (stack env (yFields props) (data props))
      else map (map SVal) (groupByFields (data props) (yFields props)))"

fun flatten_pairs :: "(jsnum \<times> jsnum) list option \<Rightarrow> jsnum list" where
  "flatten_pairs None = []"
| "flatten_pairs (Some ps) = concat (map (\<lambda>(y0, y1). [y0, y1]) ps)"

definition stacked_upper :: "runtime \<Rightarrow> points_props \<Rightarrow> jsnum option" where
  "stacked_upper env props =
     js_or (yStackedMax props)
       (lodash_max (flatten_pairs (lodash_last (stack env (yFields props) (data props)))))"

definition domain_lower :: "yscale \<Rightarrow> jsnum option" where
  "domain_lower s = (case js_nth (ydomain s) 0 of None \<Rightarrow> None | Some l \<Rightarrow> l)"

definition new_yScale :: "runtime \<Rightarrow> points_props \<Rightarrow> yscale" where
  "new_yScale env props =
     (if isStacked props
      then (yScale props)\<lparr> ydomain := [domain_lower (yScale props), stacked_upper env props] \<rparr>
      else yScale props)"

text \<open>
  The mark of one entry: the \<^verbatim>\<open>Point\<close> element of the inner function of the
  render, and the function itself, which gives no mark for an entry that is not valid.
  \<^verbatim>\<open>data[seriesIndex][xField]\<close> raises a \<^verbatim>\<open>TypeError\<close> when there is no
  row at \<open>seriesIndex\<close>. The key is the pair of the two indices the template string joins.
\<close>

definition Point_of ::
  "runtime \<Rightarrow> points_props \<Rightarrow> yscale \<Rightarrow> nat \<Rightarrow> nat \<Rightarrow> row \<Rightarrow> series \<Rightarrow> point" where
  "Point_of env props yS dIndex seriesIndex r s =
     \<lparr> mark_key = (seriesIndex, dIndex),
       mark_x = xScale props (row_get r (xField props)),
       mark_y = yfun yS (ydomain yS) (case s of SPair y0 y1 \<Rightarrow> JNum y1 | SVal v \<Rightarrow> v),
       mark_hasStroke = hasStroke props,
       mark_kind = js_add env (Fin (real dIndex)) (colorOffset props),
       mark_color =
         lodash_get (colorMap props) (js_nth (yFields props) dIndex)
           (map_option ColorString
              (js_index (palette props)
                 (js_rem (js_add env (Fin (real dIndex)) (colorOffset props))
                    (length (palette props))))) \<rparr>"

definition Points_mark ::
  "runtime \<Rightarrow> points_props \<Rightarrow> yscale \<Rightarrow> nat \<Rightarrow> nat \<times> series \<Rightarrow> error + point option" where
  "Points_mark env props yS dIndex = (\<lambda>(seriesIndex, s).
     if isValidSeries s then
       (case js_nth (data props) seriesIndex of
          None \<Rightarrow> Inl TypeError
        | Some r \<Rightarrow> Inr (Some (Point_of env props yS dIndex seriesIndex r s)))
     else Inr None)"

text \<open>Whether an entry of the rendered marks holds a mark.\<close>

fun emitted :: "point option \<Rightarrow> bool" where
  "emitted None = False"
| "emitted (Some m) = True"

definition Points :: "runtime \<Rightarrow> points_props \<Rightarrow> error + g" where
  "Points env props =
     (let yS = new_yScale env props;
          td = transformedData env props
      in case collect (map (\<lambda>(dIndex, d). collect (map (Points_mark env props yS dIndex) (enumerate 0 d)))
                         (enumerate 0 td)) of
           Inl e \<Rightarrow> Inl e
         | Inr marks \<Rightarrow>
             Inr \<lparr> g_attrs = omitProps (points_passThroughs props) Points_propTypes,
                   g_className = cx (bind ''&-Points'') [optStr (points_className props), CStr ''&''],
                   g_yScale = yS,
                   g_marks = marks \<rparr>)"

text \<open>
  The marks of the render when every entry has its row: one list per transformed series,
  one entry per row, a mark where the entry is valid.
\<close>

definition marks_of ::
  "runtime \<Rightarrow> points_props \<Rightarrow> yscale \<Rightarrow> series list list \<Rightarrow> point option list list" where
  "marks_of env props yS td =
     map (\<lambda>(dIndex, d). map (\<lambda>(seriesIndex, s).
       if isValidSeries s
       then Some (Point_of env props yS dIndex seriesIndex (data props ! seriesIndex) s)
       else None) (enumerate 0 d)) (enumerate 0 td)"

section \<open>The claims about Points, in the spec's words\<close>

text \<open>
  What the color map resolves for the field of series \<open>d\<close>, and the color of a palette
  at \<open>s mod palette.length\<close> for an integer \<open>s\<close>, with the mathematical modulus.
\<close>

definition colorMap_entry :: "points_props \<Rightarrow> nat \<Rightarrow> color_value option" where
  "colorMap_entry props d =
     (case colorMap props of None \<Rightarrow> None | Some m \<Rightarrow> m (yFields props ! d))"

definition palette_cycle :: "string list \<Rightarrow> int \<Rightarrow> string" where
  "palette_cycle colors s = colors ! nat (s mod int (length colors))"

text \<open>
  Whether a number is finite, and its value (0 for a number that is not). The cumulative
  sum of a row over the y fields, each value read as a number and added in the order of
  the fields by the runtime's addition; the maximum of the sums over the rows; and the
  upper bound the spec names: the override when there is one, the maximum otherwise.
\<close>

fun is_fin :: "jsnum \<Rightarrow> bool" where
  "is_fin (Fin a) = True"
| "is_fin n = False"

fun fin_value :: "jsnum \<Rightarrow> real" where
  "fin_value (Fin a) = a"
| "fin_value n = 0"

fun sum_from :: "runtime \<Rightarrow> jsnum \<Rightarrow> string list \<Rightarrow> row \<Rightarrow> jsnum" where
  "sum_from env c [] r = c"
| "sum_from env c (k # ks) r = sum_from env (js_add env (to_number env (row_get r k)) c) ks r"

fun row_total :: "runtime \<Rightarrow> string list \<Rightarrow> row \<Rightarrow> jsnum" where
  "row_total env [] r = Fin 0"
| "row_total env (k # ks) r = sum_from env (to_number env (row_get r k)) ks r"

definition max_row_total :: "runtime \<Rightarrow> points_props \<Rightarrow> real" where
  "max_row_total env props =
     Max (set (map (\<lambda>r. fin_value (row_total env (yFields props) r)) (data props)))"

definition claimed_upper :: "runtime \<Rightarrow> points_props \<Rightarrow> jsnum option" where
  "claimed_upper env props =
     (case yStackedMax props of
        Some m \<Rightarrow> Some m
      | None \<Rightarrow> Some (Fin (max_row_total env props)))"

text \<open>
  A property of the addition of doubles, which rounds the exact sum to the nearest
  double: a number plus a number that is not negative is not less than the number. (The
  runtime adds doubles only; what the parameter gives for other reals is of no
  consequence, and may be taken to be the exact sum.)
\<close>

definition add_monotone :: "runtime \<Rightarrow> bool" where
  "add_monotone env = (\<forall>a b c. 0 \<le> a \<longrightarrow> num_add env a b = Fin c \<longrightarrow> b \<le> c)"

section \<open>Example inputs\<close>

text \<open>
  A vertical legend with two items, a text node between them, the second item in a nested
  array: the first item has a point and a callback, the second a line and no callback.
\<close>

definition legend_example :: legend_props where
  "legend_example =
     \<lparr> className = None, orient = ''vertical'', hasBorders = True, isReversed = False,
       legend_children = ChildArray
         [Single (Elem (Element Legend_Item
            \<lparr> hasPoint = True, hasLine = False, color = None, pointKind = None,
              onClick = Some 7, item_children = ''a'', item_className = None \<rparr>)),
          Single (TextNode ''between''),
          Nested [Elem (Element Legend_Item
            \<lparr> hasPoint = False, hasLine = True, color = Some ''COLOR_0'', pointKind = None,
              onClick = None, item_children = ''b'', item_className = Some ''mine'' \<rparr>)]],
       passThroughs = [(''id'', ''legend''), (''orient'', ''x'')] \<rparr>"

text \<open>
  A banner of a kind that is none of the six tokens, and a panel with two headers, a text
  node and a button.
\<close>

definition banner_example :: banner_props where
  "banner_example =
     \<lparr> icon = None, isCloseable = True, isFilled = True, isSmall = False, kind = ''fancy'',
       onClose = 0, isClosed = False, banner_className = None, banner_children = ''hello'',
       banner_passThroughs = [] \<rparr>"

definition panel_example :: panel_props where
  "panel_example =
     \<lparr> panel_children = ChildArray
         [Single (Elem (Element Panel_Header
            \<lparr> description = None, slot_children = ''first'', slot_className = Some ''mine'', slot_rest = [] \<rparr>)),
          Single (TextNode ''body''),
          Nested [Elem (Element Panel_Header
            \<lparr> description = Some ''ignored'', slot_children = ''second'', slot_className = None, slot_rest = [] \<rparr>),
            Elem (Element (Other_Component ''Button'')
            \<lparr> description = None, slot_children = ''ok'', slot_className = None, slot_rest = [] \<rparr>)]],
       panel_className = None, isGutterless = False, hasMargin = True, style = None,
       isScrollable = True, panel_passThroughs = [] \<rparr>"

text \<open>
  A runtime for the examples: no string stands for a number, and the sum of two numbers
  is exact, as the sum of doubles is on the small integers of the examples.
\<close>

definition example_runtime :: runtime where
  "example_runtime = \<lparr> str_number = (\<lambda>s. NaN), num_add = (\<lambda>a b. Fin (a + b)) \<rparr>"

text \<open>
  The rows of the spec's stacking example, stacked over \<open>y0\<close> and \<open>y1\<close>, with a
  palette of three colors. The x scale gives the length of a string, the y scale the
  number it is given.
\<close>

definition points_example :: points_props where
  "points_example =
     \<lparr> points_className = None,
       data = [[(''x'', JStr ''a''), (''y0'', JNum (Fin 1)), (''y1'', JNum (Fin 2))],
               [(''x'', JStr ''b''), (''y0'', JNum (Fin 3)), (''y1'', JNum (Fin 1))]],
       palette = [''red'', ''green'', ''blue''],
       colorMap = None,
       colorOffset = Fin 0,
       xField = ''x'',
       hasStroke = True,
       xScale = (\<lambda>v. case v of JStr s \<Rightarrow> Some (Fin (real (length s))) | _ \<Rightarrow> None),
       yFields = [''y0'', ''y1''],
       yStackedMax = None,
       isStacked = True,
       yScale = \<lparr> ydomain = [Some (Fin 0), Some (Fin 10)],
                  yfun = (\<lambda>d v. case v of JNum n \<Rightarrow> Some n | _ \<Rightarrow> None) \<rparr>,
       points_passThroughs = [] \<rparr>"

text \<open>
  One row whose second and third y values are negative; the example with an offset of
  -1, with an offset of one half and with an empty palette; the example with a color map
  that resolves \<open>y1\<close> and nothing else; and rows with a string and a missing field in
  \<open>y0\<close> and a date in \<open>y1\<close>, grouped and stacked.
\<close>

definition points_negative :: points_props where
  "points_negative = points_example
     \<lparr> data := [[(''x'', JStr ''a''), (''y0'', JNum (Fin 5)), (''y1'', JNum (Fin (- 2))),
                 (''y2'', JNum (Fin (- 1)))]],
       yFields := [''y0'', ''y1'', ''y2''] \<rparr>"

definition points_offset :: points_props where
  "points_offset = points_example\<lparr> colorOffset := Fin (- 1) \<rparr>"

definition points_half :: points_props where
  "points_half = points_example\<lparr> colorOffset := Fin (1 / 2) \<rparr>"

definition points_no_palette :: points_props where
  "points_no_palette = points_example\<lparr> palette := [] \<rparr>"

definition points_mapped :: points_props where
  "points_mapped = points_example
     \<lparr> colorMap := Some (\<lambda>k. if k = ''y1'' then Some (ColorString ''#abc123'') else None) \<rparr>"

definition points_malformed :: points_props where
  "points_malformed = points_example
     \<lparr> data := [[(''x'', JStr ''a''), (''y0'', JNum (Fin 1)), (''y1'', JNum (Fin 2))],
                [(''x'', JStr ''b''), (''y0'', JStr ''oops''), (''y1'', JDate 86400000)],
                [(''x'', JStr ''c''), (''y1'', JNum (Fin 3))]],
       isStacked := False \<rparr>"

definition points_malformed_stacked :: points_props where
  "points_malformed_stacked = points_malformed\<lparr> isStacked := True \<rparr>"

section \<open>Slot extraction: properties\<close>

lemma filterTypes_filter: "map Elem (filterTypes ns T) = filter (carries T) ns"
  by (induction ns T rule: filterTypes.induct) auto

lemma length_filter_count: "length (filter P xs) = count_list (map P xs) True"
  by (induction xs) auto

text \<open>
  Claim C3. For every children value (none, one node, or an array with arrays one level
  down) and every type tag, the extraction gives exactly the elements of the flattened
  children that carry the tag, in their order: it is the filtered sequence, a subsequence
  of the flattened children, as long as the number of nodes that carry the tag, and empty
  when no node carries it.
\<close>

theorem findTypes_subsequence:
  "map Elem (findTypes C T) = filter (carries T) (flatten_children C)
   \<and> subseq (map Elem (findTypes C T)) (flatten_children C)
   \<and> length (findTypes C T) = count_list (map (carries T) (flatten_children C)) True
   \<and> ((\<forall>n \<in> set (flatten_children C). \<not> carries T n) \<longrightarrow> findTypes C T = [])"
proof -
  have eq: "map Elem (findTypes C T) = filter (carries T) (flatten_children C)"
    by (simp add: findTypes_def filterTypes_filter)
  have "length (findTypes C T) = length (map Elem (findTypes C T))"
    by simp
  also have "\<dots> = count_list (map (carries T) (flatten_children C)) True"
    unfolding eq by (rule length_filter_count)
  finally have cnt: "length (findTypes C T) = count_list (map (carries T) (flatten_children C)) True" .
  have none: "findTypes C T = []" if "\<forall>n \<in> set (flatten_children C). \<not> carries T n"
  proof -
    from that have "filter (carries T) (flatten_children C) = []"
      by (simp add: filter_empty_conv)
    with eq show ?thesis by simp
  qed
  from eq cnt none show ?thesis
    by (simp add: subseq_filter_left)
qed

theorem findTypes_subsequence_witness:
  "length (findTypes (legend_children legend_example) Legend_Item) = 2
   \<and> findTypes (legend_children legend_example) Panel_Header = []
   \<and> findTypes (NoChildren :: item_props children) Legend_Item = []"
proof -
  note t = findTypes_subsequence [where C = "legend_children legend_example"]
  have "length (findTypes (legend_children legend_example) Legend_Item) =
      count_list (map (carries Legend_Item) (flatten_children (legend_children legend_example))) True"
    using t [where T = Legend_Item] by blast
  then have two: "length (findTypes (legend_children legend_example) Legend_Item) = 2"
    by (simp add: legend_example_def)
  have "\<forall>n \<in> set (flatten_children (legend_children legend_example)). \<not> carries Panel_Header n"
    by (simp add: legend_example_def)
  with t [where T = Panel_Header] have none: "findTypes (legend_children legend_example) Panel_Header = []"
    by blast
  have "findTypes (NoChildren :: item_props children) Legend_Item = []"
    using findTypes_subsequence [where C = "NoChildren :: item_props children" and T = Legend_Item]
    by simp
  with two none show ?thesis by simp
qed

section \<open>Legend: properties\<close>

lemma length_Legend_items: "length (ul_items (Legend props)) = length (Legend_itemProps props)"
  by (simp add: Legend_def Legend_itemProps_def Let_def)

lemma nth_Legend_items:
  assumes "i < length (Legend_itemProps props)"
  shows "ul_items (Legend props) ! i =
    Legend_item (Legend_itemProps props)
      (orient props = ''vertical'' \<and> list_ex hasLine (Legend_itemProps props))
      (i, Legend_itemProps props ! i)"
  using assms by (simp add: Legend_def Legend_itemProps_def Let_def nth_enumerate_eq)

lemma itemProps_isReversed: "Legend_itemProps (props\<lparr>isReversed := r\<rparr>) = Legend_itemProps props"
  by (simp add: Legend_itemProps_def)

lemma itemProps_orient: "Legend_itemProps (props\<lparr>orient := r\<rparr>) = Legend_itemProps props"
  by (simp add: Legend_itemProps_def)

lemma legend_example_items:
  "Legend_itemProps legend_example =
     [\<lparr> hasPoint = True, hasLine = False, color = None, pointKind = None,
        onClick = Some 7, item_children = ''a'', item_className = None \<rparr>,
      \<lparr> hasPoint = False, hasLine = True, color = Some ''COLOR_0'', pointKind = None,
        onClick = None, item_children = ''b'', item_className = Some ''mine'' \<rparr>]"
  by (simp add: Legend_itemProps_def legend_example_def findTypes_def)

text \<open>
  Claim C1. In a vertical legend where some extracted item has a line, every item that
  renders an indicator (it has a point or a line) renders it 22 wide, the width of a
  line, not 12, the width of a point. The example of the claim, a point-only item and a
  line-only item in a vertical legend, is the witness: both rows are 22 wide.
\<close>

theorem Legend_vertical_lines_widen_all:
  assumes "orient props = ''vertical''"
    and "list_ex hasLine (Legend_itemProps props)"
    and "i < length (Legend_itemProps props)"
    and "hasPoint (Legend_itemProps props ! i) \<or> hasLine (Legend_itemProps props ! i)"
  shows "map_option width (li_indicator (ul_items (Legend props) ! i)) = Some 22"
  using assms by (auto simp add: nth_Legend_items Legend_item_def LINE_WIDTH_def)

theorem Legend_vertical_lines_widen_all_witness:
  "map (\<lambda>r. map_option width (li_indicator r)) (ul_items (Legend legend_example)) =
     [Some 22, Some 22]"
proof -
  have v: "orient legend_example = ''vertical''"
    by (simp add: legend_example_def)
  have l: "list_ex hasLine (Legend_itemProps legend_example)"
    by (simp add: legend_example_items)
  have n: "length (ul_items (Legend legend_example)) = 2"
    by (simp add: length_Legend_items legend_example_items)
  have r0: "map_option width (li_indicator (ul_items (Legend legend_example) ! 0)) = Some 22"
    using Legend_vertical_lines_widen_all [OF v l, of 0] by (simp add: legend_example_items)
  have r1: "map_option width (li_indicator (ul_items (Legend legend_example) ! 1)) = Some 22"
    using Legend_vertical_lines_widen_all [OF v l, of 1] by (simp add: legend_example_items)
  show ?thesis
    using n r0 r1 by (simp add: list_eq_iff_nth_eq nth_Cons' less_Suc_eq numeral_2_eq_2)
qed

text \<open>
  Claim C9. In a legend that is not vertical, the width of an item's indicator depends
  on the item alone: 22 when the item has a line, 12 when it has a point and no line (and
  no indicator when it has neither). The lines of the other items widen nothing.
\<close>

theorem Legend_not_vertical_own_line_only:
  assumes "orient props \<noteq> ''vertical''"
    and "i < length (Legend_itemProps props)"
  shows "map_option width (li_indicator (ul_items (Legend props) ! i)) =
    (if hasLine (Legend_itemProps props ! i) then Some 22
     else if hasPoint (Legend_itemProps props ! i) then Some 12
     else None)"
  using assms by (simp add: nth_Legend_items Legend_item_def LINE_WIDTH_def POINT_SIZE_def)

theorem Legend_not_vertical_own_line_only_witness:
  "map (\<lambda>r. map_option width (li_indicator r))
     (ul_items (Legend (legend_example\<lparr>orient := ''horizontal''\<rparr>))) = [Some 12, Some 22]"
proof -
  let ?p = "legend_example\<lparr>orient := ''horizontal''\<rparr>"
  have h: "orient ?p \<noteq> ''vertical''"
    by simp
  have n: "length (ul_items (Legend ?p)) = 2"
    by (simp add: length_Legend_items itemProps_orient legend_example_items)
  have r0: "map_option width (li_indicator (ul_items (Legend ?p) ! 0)) = Some 12"
    using Legend_not_vertical_own_line_only [OF h, of 0]
    by (simp add: itemProps_orient legend_example_items)
  have r1: "map_option width (li_indicator (ul_items (Legend ?p) ! 1)) = Some 22"
    using Legend_not_vertical_own_line_only [OF h, of 1]
    by (simp add: itemProps_orient legend_example_items)
  show ?thesis
    using n r0 r1 by (simp add: list_eq_iff_nth_eq nth_Cons' less_Suc_eq numeral_2_eq_2)
qed

text \<open>
  Claim C4. A legend renders one row per extracted item, and a click on row \<open>i\<close> makes
  exactly one call, to the callback that item \<open>i\<close> declared, with the index \<open>i\<close>, the
  event and the item's props; when the item declared no callback the click makes no call.
\<close>

theorem Legend_click_calls_own_callback:
  assumes "i < length (Legend_itemProps props)"
  shows "length (ul_items (Legend props)) = length (Legend_itemProps props)
    \<and> li_onClick (ul_items (Legend props) ! i) event =
      (case onClick (Legend_itemProps props ! i) of
         None \<Rightarrow> []
       | Some f \<Rightarrow> [Call f i event (Legend_itemProps props ! i)])"
  using assms
  by (simp add: length_Legend_items nth_Legend_items Legend_item_def handleItemClick_def)

theorem Legend_click_calls_own_callback_witness:
  "li_onClick (ul_items (Legend legend_example) ! 0) 3 =
     [Call 7 0 3 (Legend_itemProps legend_example ! 0)]
   \<and> li_onClick (ul_items (Legend legend_example) ! 1) 3 = []"
  using Legend_click_calls_own_callback [of 0 legend_example 3]
    Legend_click_calls_own_callback [of 1 legend_example 3]
  by (simp add: legend_example_items)

text \<open>
  Claim C5. Setting \<^verbatim>\<open>isReversed\<close> to any value leaves the rows and the
  forwarded attributes of the legend as they are and changes the class name of the root
  in the reversed modifier only; a click on row \<open>i\<close> reports the index \<open>i\<close> of the item
  in the extracted sequence, whatever the value of \<^verbatim>\<open>isReversed\<close>.
\<close>

theorem Legend_isReversed_only_class:
  "ul_items (Legend (props\<lparr>isReversed := r\<rparr>)) = ul_items (Legend props)
   \<and> ul_attrs (Legend (props\<lparr>isReversed := r\<rparr>)) = ul_attrs (Legend props)
   \<and> filter (\<lambda>c. c \<noteq> ''lucid-Legend-is-reversed'')
       (ul_className (Legend (props\<lparr>isReversed := r\<rparr>))) =
     filter (\<lambda>c. c \<noteq> ''lucid-Legend-is-reversed'') (ul_className (Legend props))
   \<and> (\<forall>i < length (Legend_itemProps props). \<forall>event.
        li_onClick (ul_items (Legend (props\<lparr>isReversed := r\<rparr>)) ! i) event =
        handleItemClick i (Legend_itemProps props ! i) event)"
proof (intro conjI allI impI)
  show "ul_items (Legend (props\<lparr>isReversed := r\<rparr>)) = ul_items (Legend props)"
    by (simp add: Legend_def Let_def)
  show "ul_attrs (Legend (props\<lparr>isReversed := r\<rparr>)) = ul_attrs (Legend props)"
    by (simp add: Legend_def Let_def)
  show "filter (\<lambda>c. c \<noteq> ''lucid-Legend-is-reversed'')
       (ul_className (Legend (props\<lparr>isReversed := r\<rparr>))) =
     filter (\<lambda>c. c \<noteq> ''lucid-Legend-is-reversed'') (ul_className (Legend props))"
    by (simp add: Legend_def Let_def cx_def bind_def amp_def)
  fix i event
  assume "i < length (Legend_itemProps props)"
  then show "li_onClick (ul_items (Legend (props\<lparr>isReversed := r\<rparr>)) ! i) event =
        handleItemClick i (Legend_itemProps props ! i) event"
    using nth_Legend_items [of i "props\<lparr>isReversed := r\<rparr>"]
    by (simp add: itemProps_isReversed Legend_item_def)
qed

theorem Legend_isReversed_only_class_witness:
  "ul_className (Legend (legend_example\<lparr>isReversed := True\<rparr>)) =
     [''lucid-Legend'', ''lucid-Legend-is-vertical'', ''lucid-Legend-has-borders'',
      ''lucid-Legend-is-reversed'']
   \<and> ul_className (Legend legend_example) =
     [''lucid-Legend'', ''lucid-Legend-is-vertical'', ''lucid-Legend-has-borders'']
   \<and> ul_items (Legend (legend_example\<lparr>isReversed := True\<rparr>)) = ul_items (Legend legend_example)
   \<and> li_onClick (ul_items (Legend (legend_example\<lparr>isReversed := True\<rparr>)) ! 0) 3 =
     [Call 7 0 3 (Legend_itemProps legend_example ! 0)]"
proof -
  note t = Legend_isReversed_only_class [where props = legend_example and r = True]
  have c1: "ul_className (Legend (legend_example\<lparr>isReversed := True\<rparr>)) =
     [''lucid-Legend'', ''lucid-Legend-is-vertical'', ''lucid-Legend-has-borders'',
      ''lucid-Legend-is-reversed'']"
    by (simp add: Legend_def Let_def legend_example_def cx_def bind_def amp_def)
  have c2: "ul_className (Legend legend_example) =
     [''lucid-Legend'', ''lucid-Legend-is-vertical'', ''lucid-Legend-has-borders'']"
    by (simp add: Legend_def Let_def legend_example_def cx_def bind_def amp_def)
  have n: "0 < length (Legend_itemProps legend_example)"
    by (simp add: legend_example_items)
  have k: "handleItemClick 0 (Legend_itemProps legend_example ! 0) 3 =
      [Call 7 0 3 (Legend_itemProps legend_example ! 0)]"
    by (simp add: legend_example_items handleItemClick_def)
  from t have items: "ul_items (Legend (legend_example\<lparr>isReversed := True\<rparr>)) =
      ul_items (Legend legend_example)"
    by blast
  from t n have "li_onClick (ul_items (Legend (legend_example\<lparr>isReversed := True\<rparr>)) ! 0) 3 =
      handleItemClick 0 (Legend_itemProps legend_example ! 0) 3"
    by blast
  with k c1 c2 items show ?thesis by simp
qed

section \<open>Modifier classes: properties\<close>

text \<open>
  Claim C8. A banner whose kind is none of the recognized tokens and a legend whose
  orientation is none of the recognized tokens render all the same: the class name of
  the banner's section is composed of the base, the modifiers that do not stand for a
  kind and the caller's class name, and that of the legend's root of the base, the
  border and reversed modifiers and the caller's class name. When the caller gives no
  class name, no class of a kind, and no class of an orientation, is among the tokens.
\<close>

theorem unrecognized_tokens_no_modifier:
  "(kind bp \<notin> set Banner_kinds \<longrightarrow>
      (\<forall>s. group_child (Banner bp) = Some s \<longrightarrow>
         section_className s = cx (bind ''&-Banner'')
           [CStr ''&'',
            CMap [(''&-has-icon'', icon bp \<noteq> None), (''&-has-close'', isCloseable bp),
                  (''&-small'', isSmall bp), (''&-filled'', isFilled bp)],
            optStr (banner_className bp)]
         \<and> (banner_className bp = None \<longrightarrow>
              set (section_className s) \<inter> set Banner_kind_classes = {})))
   \<and> (orient lp \<notin> set Legend_orients \<longrightarrow>
        ul_className (Legend lp) = cx (bind ''&-Legend'')
          [CStr ''&'',
           CMap [(''&-has-borders'', hasBorders lp), (''&-is-reversed'', isReversed lp)],
           optStr (className lp)]
        \<and> (className lp = None \<longrightarrow>
             set (ul_className (Legend lp)) \<inter> set Legend_orient_classes = {}))"
proof (intro conjI impI allI)
  fix s
  assume k: "kind bp \<notin> set Banner_kinds" and s: "group_child (Banner bp) = Some s"
  from s have cl: "\<not> isClosed bp" by (auto simp add: Banner_def Let_def split: if_splits)
  from k have ks: "kind bp \<noteq> ''primary''" "kind bp \<noteq> ''success''" "kind bp \<noteq> ''warning''"
    "kind bp \<noteq> ''danger''" "kind bp \<noteq> ''info''"
    by (auto simp add: Banner_kinds_def)
  from s cl ks show eq: "section_className s = cx (bind ''&-Banner'')
           [CStr ''&'',
            CMap [(''&-has-icon'', icon bp \<noteq> None), (''&-has-close'', isCloseable bp),
                  (''&-small'', isSmall bp), (''&-filled'', isFilled bp)],
            optStr (banner_className bp)]"
    by (auto simp add: Banner_def Let_def cx_def)
  assume "banner_className bp = None"
  with eq show "set (section_className s) \<inter> set Banner_kind_classes = {}"
    by (simp add: cx_def bind_def amp_def Banner_kind_classes_def)
next
  assume o: "orient lp \<notin> set Legend_orients"
  then have os: "orient lp \<noteq> ''horizontal''" "orient lp \<noteq> ''vertical''"
    by (auto simp add: Legend_orients_def)
  then show eq: "ul_className (Legend lp) = cx (bind ''&-Legend'')
          [CStr ''&'',
           CMap [(''&-has-borders'', hasBorders lp), (''&-is-reversed'', isReversed lp)],
           optStr (className lp)]"
    by (simp add: Legend_def Let_def cx_def)
  assume "className lp = None"
  with eq show "set (ul_className (Legend lp)) \<inter> set Legend_orient_classes = {}"
    by (simp add: cx_def bind_def amp_def Legend_orient_classes_def)
qed

theorem unrecognized_tokens_no_modifier_witness:
  "map_option section_className (group_child (Banner banner_example)) =
     Some [''lucid-Banner'', ''lucid-Banner-has-close'', ''lucid-Banner-filled'']
   \<and> ul_className (Legend (legend_example\<lparr>orient := ''diagonal''\<rparr>)) =
     [''lucid-Legend'', ''lucid-Legend-has-borders'']"
proof -
  note t = unrecognized_tokens_no_modifier
    [where bp = banner_example and lp = "legend_example\<lparr>orient := ''diagonal''\<rparr>"]
  have k: "kind banner_example \<notin> set Banner_kinds"
    by (simp add: banner_example_def Banner_kinds_def)
  have o: "orient (legend_example\<lparr>orient := ''diagonal''\<rparr>) \<notin> set Legend_orients"
    by (simp add: Legend_orients_def)
  obtain s where s: "group_child (Banner banner_example) = Some s"
    by (simp add: Banner_def banner_example_def)
  from t k s have "section_className s = cx (bind ''&-Banner'')
           [CStr ''&'',
            CMap [(''&-has-icon'', icon banner_example \<noteq> None),
                  (''&-has-close'', isCloseable banner_example),
                  (''&-small'', isSmall banner_example), (''&-filled'', isFilled banner_example)],
            optStr (banner_className banner_example)]"
    by blast
  then have b: "section_className s =
      [''lucid-Banner'', ''lucid-Banner-has-close'', ''lucid-Banner-filled'']"
    by (simp add: banner_example_def cx_def bind_def amp_def)
  from t o have "ul_className (Legend (legend_example\<lparr>orient := ''diagonal''\<rparr>)) =
      cx (bind ''&-Legend'')
          [CStr ''&'',
           CMap [(''&-has-borders'', hasBorders (legend_example\<lparr>orient := ''diagonal''\<rparr>)),
                 (''&-is-reversed'', isReversed (legend_example\<lparr>orient := ''diagonal''\<rparr>))],
           optStr (className (legend_example\<lparr>orient := ''diagonal''\<rparr>))]"
    by blast
  then have l: "ul_className (Legend (legend_example\<lparr>orient := ''diagonal''\<rparr>)) =
     [''lucid-Legend'', ''lucid-Legend-has-borders'']"
    by (simp add: legend_example_def cx_def bind_def amp_def)
  from s b l show ?thesis by simp
qed

section \<open>Panel: properties\<close>

lemma concat_Single: "concat (map (child_nodes \<circ> Single) ns) = ns"
  by (induction ns) auto

lemma flatten_without_later:
  "flatten_children (without_later T cs) = later_dropped T False (flatten_children cs)"
  by (simp add: without_later_def concat_Single)

lemma filterTypes_later_dropped_same:
  "filterTypes (later_dropped T seen ns) T = (if seen then [] else take 1 (filterTypes ns T))"
proof (induction ns arbitrary: seen)
  case Nil
  then show ?case by simp
next
  case (Cons n ns)
  then show ?case by (cases n) auto
qed

lemma filterTypes_later_dropped_other:
  "T' \<noteq> T \<Longrightarrow> filterTypes (later_dropped T seen ns) T' = filterTypes ns T'"
proof (induction ns arbitrary: seen)
  case Nil
  then show ?case by simp
next
  case (Cons n ns)
  then show ?case by (cases n) auto
qed

lemma marker_renders_null:
  "T = Panel_Header \<or> T = Panel_Footer \<Longrightarrow> carries T n \<Longrightarrow> renders_null n"
  by (cases n) auto

lemma shown_later_dropped:
  assumes "T = Panel_Header \<or> T = Panel_Footer"
  shows "filter (\<lambda>n. \<not> renders_null n) (later_dropped T seen ns) =
    filter (\<lambda>n. \<not> renders_null n) ns"
  using marker_renders_null [OF assms] by (induction ns arbitrary: seen) auto

lemma first_take1: "lodash_first (map f (take (Suc 0) xs)) = lodash_first (map f xs)"
  by (cases xs) auto

lemma findTypes_without_later_same:
  "findTypes (without_later T cs) T = take 1 (findTypes cs T)"
  by (simp add: findTypes_def flatten_without_later filterTypes_later_dropped_same)

lemma findTypes_without_later_other:
  "T' \<noteq> T \<Longrightarrow> findTypes (without_later T cs) T' = findTypes cs T'"
  by (simp add: findTypes_def flatten_without_later filterTypes_later_dropped_other)

lemma first_findTypes_without_later:
  "lodash_first (map eprops (findTypes (without_later T cs) T')) =
   lodash_first (map eprops (findTypes cs T'))"
  by (cases "T' = T") (simp_all add: findTypes_without_later_same findTypes_without_later_other first_take1)

text \<open>
  Claim C6. The header region of a panel is rendered from the props of the first
  \<^verbatim>\<open>Panel.Header\<close> among its children and the footer region from those of the
  first \<^verbatim>\<open>Panel.Footer\<close>, whatever follows them. Taking every later instance of
  one of the two marker types out of the children leaves one instance at most and does
  not change what is shown of the panel: root, header, content and footer are the same.
  (The later instances stay among the children handed to the content section, where a
  marker shows nothing.)
\<close>

theorem Panel_first_slot_only:
  assumes "T = Panel_Header \<or> T = Panel_Footer"
  shows "show_Panel (Panel (props\<lparr>panel_children := without_later T (panel_children props)\<rparr>)) =
      show_Panel (Panel props)
    \<and> findTypes (without_later T (panel_children props)) T = take 1 (findTypes (panel_children props) T)
    \<and> div_header (Panel props) =
      (case findTypes (panel_children props) Panel_Header of
         [] \<Rightarrow> None
       | h # later \<Rightarrow> Some \<lparr> region_spread = eprops h,
                            region_className = cx (bind ''&-Panel'')
                              [CStr ''&-Header'', optStr (slot_className (eprops h))] \<rparr>)
    \<and> div_footer (Panel props) =
      (case findTypes (panel_children props) Panel_Footer of
         [] \<Rightarrow> None
       | f # later \<Rightarrow> Some \<lparr> region_spread = eprops f,
                            region_className = cx (bind ''&-Panel'')
                              [CStr ''&-Footer'', optStr (slot_className (eprops f))] \<rparr>)"
proof (intro conjI)
  show "show_Panel (Panel (props\<lparr>panel_children := without_later T (panel_children props)\<rparr>)) =
      show_Panel (Panel props)"
    using shown_later_dropped [OF assms, of False "flatten_children (panel_children props)"]
    by (simp add: show_Panel_def Panel_def Let_def first_findTypes_without_later shown_children_def
        flatten_without_later)
  show "findTypes (without_later T (panel_children props)) T = take 1 (findTypes (panel_children props) T)"
    by (rule findTypes_without_later_same)
  show "div_header (Panel props) =
      (case findTypes (panel_children props) Panel_Header of
         [] \<Rightarrow> None
       | h # later \<Rightarrow> Some \<lparr> region_spread = eprops h,
                            region_className = cx (bind ''&-Panel'')
                              [CStr ''&-Header'', optStr (slot_className (eprops h))] \<rparr>)"
    by (simp add: Panel_def Let_def split: list.splits)
  show "div_footer (Panel props) =
      (case findTypes (panel_children props) Panel_Footer of
         [] \<Rightarrow> None
       | f # later \<Rightarrow> Some \<lparr> region_spread = eprops f,
                            region_className = cx (bind ''&-Panel'')
                              [CStr ''&-Footer'', optStr (slot_className (eprops f))] \<rparr>)"
    by (simp add: Panel_def Let_def split: list.splits)
qed

theorem Panel_first_slot_only_witness:
  "length (findTypes (panel_children panel_example) Panel_Header) = 2
   \<and> length (findTypes (without_later Panel_Header (panel_children panel_example)) Panel_Header) = 1
   \<and> show_Panel (Panel (panel_example\<lparr>panel_children :=
        without_later Panel_Header (panel_children panel_example)\<rparr>)) =
      show_Panel (Panel panel_example)
   \<and> map_option (slot_children \<circ> region_spread) (div_header (Panel panel_example)) = Some ''first''"
proof -
  have h: "Panel_Header = Panel_Header \<or> Panel_Header = Panel_Footer"
    by simp
  note t = Panel_first_slot_only [OF h, where props = panel_example]
  have two: "findTypes (panel_children panel_example) Panel_Header =
      [Element Panel_Header
         \<lparr> description = None, slot_children = ''first'', slot_className = Some ''mine'',
           slot_rest = [] \<rparr>,
       Element Panel_Header
         \<lparr> description = Some ''ignored'', slot_children = ''second'', slot_className = None,
           slot_rest = [] \<rparr>]"
    by (simp add: panel_example_def findTypes_def)
  from t two show ?thesis by simp
qed

section \<open>Points: properties\<close>

lemma collect_map_Inr:
  "(\<And>x. x \<in> set xs \<Longrightarrow> f x = Inr (g x)) \<Longrightarrow> collect (map f xs) = Inr (map g xs)"
  by (induction xs) auto

lemma length_stack_next:
  "length s0 = length rows \<Longrightarrow> s \<in> set (stack_next env s0 ks rows) \<Longrightarrow> length s = length rows"
proof (induction ks arbitrary: s0)
  case Nil
  then show ?case by simp
next
  case (Cons k ks)
  let ?s1 = "map (stack_point env k) (zip s0 rows)"
  have len: "length ?s1 = length rows"
    using Cons.prems(1) by simp
  from Cons.prems(2) have "s = ?s1 \<or> s \<in> set (stack_next env ?s1 ks rows)"
    by (simp add: Let_def)
  then show ?case
    using len Cons.IH [OF len] by auto
qed

lemma length_stack: "s \<in> set (stack env ks rows) \<Longrightarrow> length s = length rows"
proof (cases ks)
  case Nil
  assume "s \<in> set (stack env ks rows)"
  with Nil show ?thesis by simp
next
  case (Cons k ks')
  assume s: "s \<in> set (stack env ks rows)"
  let ?s0 = "map (\<lambda>r. (Fin 0, to_number env (row_get r k))) rows"
  have len: "length ?s0 = length rows"
    by simp
  from s Cons have "s = ?s0 \<or> s \<in> set (stack_next env ?s0 ks' rows)"
    by (simp add: Let_def)
  then show ?thesis
    using len length_stack_next [OF len] by auto
qed

lemma length_stack_next_outer: "length (stack_next env s0 ks rows) = length ks"
  by (induction ks arbitrary: s0) (auto simp add: Let_def)

lemma length_stack_outer: "length (stack env ks rows) = length ks"
  by (cases ks) (auto simp add: Let_def length_stack_next_outer)

lemma length_transformedData: "length (transformedData env props) = length (yFields props)"
  by (simp add: transformedData_def length_stack_outer groupByFields_def)

lemma length_transformedData_series:
  assumes "d \<in> set (transformedData env props)"
  shows "length d = length (data props)"
proof (cases "isStacked props")
  case True
  with assms obtain s where "s \<in> set (stack env (yFields props) (data props))"
    and "d = map (\<lambda>(y0, y1). SPair y0 y1) s"
    by (auto simp add: transformedData_def)
  then show ?thesis
    by (simp add: length_stack)
next
  case False
  with assms show ?thesis
    by (auto simp add: transformedData_def groupByFields_def)
qed

lemma Points_mark_in_range:
  "seriesIndex < length (data props) \<Longrightarrow>
   Points_mark env props yS dIndex (seriesIndex, s) =
     Inr (if isValidSeries s
          then Some (Point_of env props yS dIndex seriesIndex (data props ! seriesIndex) s)
          else None)"
  by (simp add: Points_mark_def js_nth_def)

lemma collect_marks:
  assumes "\<And>d. d \<in> set td \<Longrightarrow> length d = length (data props)"
  shows "collect (map (\<lambda>(dIndex, d). collect (map (Points_mark env props yS dIndex) (enumerate 0 d)))
           (enumerate 0 td)) = Inr (marks_of env props yS td)"
  unfolding marks_of_def
proof (rule collect_map_Inr)
  fix e assume e: "e \<in> set (enumerate 0 td)"
  obtain dIndex d where ed: "e = (dIndex, d)" by (cases e)
  with e have "d \<in> set td" by (auto simp add: in_set_enumerate_eq)
  then have len: "length d = length (data props)" by (rule assms)
  have "collect (map (Points_mark env props yS dIndex) (enumerate 0 d)) =
     Inr (map (\<lambda>(seriesIndex, s).
       if isValidSeries s
       then Some (Point_of env props yS dIndex seriesIndex (data props ! seriesIndex) s)
       else None) (enumerate 0 d))"
  proof (rule collect_map_Inr)
    fix c assume c: "c \<in> set (enumerate 0 d)"
    obtain j s where cj: "c = (j, s)" by (cases c)
    with c len have "j < length (data props)" by (auto simp add: in_set_enumerate_eq)
    then show "Points_mark env props yS dIndex c = Inr ((\<lambda>(seriesIndex, s).
       if isValidSeries s
       then Some (Point_of env props yS dIndex seriesIndex (data props ! seriesIndex) s)
       else None) c)"
      unfolding cj by (simp add: Points_mark_in_range)
  qed
  then show "(case e of (dIndex, d) \<Rightarrow>
      collect (map (Points_mark env props yS dIndex) (enumerate 0 d))) =
    Inr ((\<lambda>(dIndex, d). map (\<lambda>(seriesIndex, s).
       if isValidSeries s
       then Some (Point_of env props yS dIndex seriesIndex (data props ! seriesIndex) s)
       else None) (enumerate 0 d)) e)"
    unfolding ed by simp
qed

lemma Points_eq:
  "Points env props =
     Inr \<lparr> g_attrs = omitProps (points_passThroughs props) Points_propTypes,
           g_className = cx (bind ''&-Points'') [optStr (points_className props), CStr ''&''],
           g_yScale = new_yScale env props,
           g_marks = marks_of env props (new_yScale env props) (transformedData env props) \<rparr>"
  by (simp add: Points_def Let_def collect_marks length_transformedData_series)

lemma marks_of_valid:
  "map (map emitted) (marks_of env props yS td) = map (map isValidSeries) td"
  by (auto simp add: marks_of_def list_eq_iff_nth_eq nth_enumerate_eq)

lemma length_marks_of: "length (marks_of env props yS td) = length td"
  by (simp add: marks_of_def)

lemma nth_grouped:
  assumes "\<not> isStacked props" and "d < length (yFields props)" and "j < length (data props)"
  shows "transformedData env props ! d ! j = SVal (row_get (data props ! j) (yFields props ! d))"
  using assms by (simp add: transformedData_def groupByFields_def)

lemma nth_marks_of:
  assumes "d < length td" and "j < length (td ! d)"
  shows "marks_of env props yS td ! d ! j =
    (if isValidSeries (td ! d ! j)
     then Some (Point_of env props yS d j (data props ! j) (td ! d ! j)) else None)"
  using assms by (simp add: marks_of_def nth_enumerate_eq)

lemma nth_transformedData_length:
  assumes "d < length (yFields props)"
  shows "length (transformedData env props ! d) = length (data props)"
proof -
  have "transformedData env props ! d \<in> set (transformedData env props)"
    using assms by (simp add: length_transformedData)
  then show ?thesis
    by (rule length_transformedData_series)
qed

subsection \<open>The stacked series, row by row\<close>

lemma is_fin_conv: "is_fin n \<longleftrightarrow> (\<exists>a. n = Fin a)"
  by (cases n) auto

lemma isFinite_JNum: "isFinite (JNum n) = is_fin n"
  by (cases n) auto

lemma js_add_fin: "is_fin (js_add env v c) \<Longrightarrow> is_fin v \<and> is_fin c"
  by (cases v; cases c) auto

lemma zip_map_same: "zip (map p rows) rows = map (\<lambda>r. (p r, r)) rows"
  by (induction rows) auto

lemma stack_next_nth:
  assumes "d < length ks" and "j < length rows"
  shows "stack_next env (map p rows) ks rows ! d ! j =
    stack_next env [p (rows ! j)] ks [rows ! j] ! d ! 0"
  using assms
proof (induction ks arbitrary: p d)
  case Nil
  then show ?case by simp
next
  case (Cons k ks)
  let ?q = "\<lambda>r. stack_point env k (p r, r)"
  have s1: "map (stack_point env k) (zip (map p rows) rows) = map ?q rows"
    by (simp add: zip_map_same)
  show ?case
  proof (cases d)
    case 0
    then show ?thesis
      using Cons.prems(2) by (simp add: s1 Let_def)
  next
    case (Suc d')
    with Cons.prems(1) have d': "d' < length ks"
      by simp
    have "stack_next env (map p rows) (k # ks) rows ! d ! j =
        stack_next env (map ?q rows) ks rows ! d' ! j"
      using Suc by (simp add: s1 Let_def)
    also have "\<dots> = stack_next env [?q (rows ! j)] ks [rows ! j] ! d' ! 0"
      using d' Cons.prems(2) by (rule Cons.IH)
    also have "\<dots> = stack_next env [p (rows ! j)] (k # ks) [rows ! j] ! d ! 0"
      using Suc by (simp add: Let_def)
    finally show ?thesis .
  qed
qed

lemma stack_nth:
  assumes "d < length ks" and "j < length rows"
  shows "stack env ks rows ! d ! j = stack env ks [rows ! j] ! d ! 0"
proof (cases ks)
  case Nil
  with assms(1) show ?thesis by simp
next
  case (Cons k ks')
  let ?p = "\<lambda>r. (Fin 0, to_number env (row_get r k))"
  show ?thesis
  proof (cases d)
    case 0
    then show ?thesis
      using Cons assms(2) by (simp add: Let_def)
  next
    case (Suc d')
    with assms(1) Cons have d': "d' < length ks'"
      by simp
    have "stack env ks rows ! d ! j = stack_next env (map ?p rows) ks' rows ! d' ! j"
      using Cons Suc by (simp add: Let_def)
    also have "\<dots> = stack_next env [?p (rows ! j)] ks' [rows ! j] ! d' ! 0"
      using d' assms(2) by (rule stack_next_nth)
    also have "\<dots> = stack env ks [rows ! j] ! d ! 0"
      using Cons Suc by (simp add: Let_def)
    finally show ?thesis .
  qed
qed

text \<open>
  The entries of one row: the one after the entries \<open>p\<close>, and the one at field \<open>d\<close>.
\<close>

lemma stack_next_row_snd:
  assumes "d < length ks"
  shows "\<exists>y0. stack_next env [p] ks [r] ! d ! 0 =
    (y0, js_add env (to_number env (row_get r (ks ! d))) y0)"
  using assms
proof (induction ks arbitrary: p d)
  case Nil
  then show ?case by simp
next
  case (Cons k ks)
  show ?case
  proof (cases d)
    case 0
    then show ?thesis
      by (simp add: Let_def stack_point_def)
  next
    case (Suc d')
    with Cons.prems have "d' < length ks"
      by simp
    from Cons.IH [OF this, of "stack_point env k (p, r)"] Suc show ?thesis
      by (simp add: Let_def)
  qed
qed

lemma stack_entry:
  assumes "d < length ks" and "j < length rows"
  shows "(d = 0 \<longrightarrow>
      snd (stack env ks rows ! d ! j) = to_number env (row_get (rows ! j) (ks ! d)))
    \<and> (0 < d \<longrightarrow>
      snd (stack env ks rows ! d ! j) =
        js_add env (to_number env (row_get (rows ! j) (ks ! d))) (fst (stack env ks rows ! d ! j)))"
proof (cases ks)
  case Nil
  with assms(1) show ?thesis by simp
next
  case (Cons k ks')
  show ?thesis
  proof (cases d)
    case 0
    then show ?thesis
      using Cons assms(2) by (simp add: Let_def)
  next
    case (Suc d')
    with assms(1) Cons have d': "d' < length ks'"
      by simp
    obtain y0 where "stack_next env [(Fin 0, to_number env (row_get (rows ! j) k))] ks' [rows ! j] ! d' ! 0 =
        (y0, js_add env (to_number env (row_get (rows ! j) (ks' ! d'))) y0)"
      using stack_next_row_snd [OF d'] by blast
    then have "stack env ks [rows ! j] ! d ! 0 =
        (y0, js_add env (to_number env (row_get (rows ! j) (ks ! d))) y0)"
      using Cons Suc by (simp add: Let_def)
    moreover have "stack env ks rows ! d ! j = stack env ks [rows ! j] ! d ! 0"
      using assms by (rule stack_nth)
    ultimately have "stack env ks rows ! d ! j =
        (y0, js_add env (to_number env (row_get (rows ! j) (ks ! d))) y0)"
      by simp
    then show ?thesis
      using Suc by simp
  qed
qed

lemma sum_from_fin: "is_fin (sum_from env c ks r) \<Longrightarrow> is_fin c"
proof (induction ks arbitrary: c)
  case Nil
  then show ?case by simp
next
  case (Cons k ks)
  from Cons.prems have "is_fin (js_add env (to_number env (row_get r k)) c)"
    by (auto dest: Cons.IH)
  then show ?case
    by (auto dest: js_add_fin)
qed

lemma sum_from_snoc:
  "sum_from env c (ks @ [k]) r = js_add env (to_number env (row_get r k)) (sum_from env c ks r)"
  by (induction ks arbitrary: c) auto

lemma row_total_snoc:
  "ks \<noteq> [] \<Longrightarrow>
   row_total env (ks @ [k]) r = js_add env (to_number env (row_get r k)) (row_total env ks r)"
  by (cases ks) (simp_all add: sum_from_snoc)

lemma stack_point_fin:
  "is_fin c \<Longrightarrow> stack_point env k ((a, c), r) = (c, js_add env (to_number env (row_get r k)) c)"
  by (cases c) (simp_all add: stack_point_def Let_def)

lemma stack_next_row_total:
  assumes "d < length ks" and "is_fin c" and "is_fin (sum_from env c (take (Suc d) ks) r)"
  shows "stack_next env [(a, c)] ks [r] ! d ! 0 =
    (sum_from env c (take d ks) r, sum_from env c (take (Suc d) ks) r)"
  using assms
proof (induction ks arbitrary: a c d)
  case Nil
  then show ?case by simp
next
  case (Cons k ks)
  let ?c' = "js_add env (to_number env (row_get r k)) c"
  have q: "stack_point env k ((a, c), r) = (c, ?c')"
    using Cons.prems(2) by (rule stack_point_fin)
  show ?case
  proof (cases d)
    case 0
    then show ?thesis
      by (simp add: q Let_def)
  next
    case (Suc d')
    with Cons.prems(1) have d': "d' < length ks"
      by simp
    from Cons.prems(3) Suc have fin: "is_fin (sum_from env ?c' (take (Suc d') ks) r)"
      by simp
    then have c': "is_fin ?c'"
      by (rule sum_from_fin)
    have "stack_next env [(a, c)] (k # ks) [r] ! d ! 0 = stack_next env [(c, ?c')] ks [r] ! d' ! 0"
      using Suc by (simp add: q Let_def)
    also have "\<dots> = (sum_from env ?c' (take d' ks) r, sum_from env ?c' (take (Suc d') ks) r)"
      using d' c' fin by (rule Cons.IH)
    finally show ?thesis
      using Suc by simp
  qed
qed

lemma stack_row_total:
  assumes "d < length ks" and "j < length rows"
    and "is_fin (row_total env (take (Suc d) ks) (rows ! j))"
  shows "stack env ks rows ! d ! j =
    (if d = 0 then Fin 0 else row_total env (take d ks) (rows ! j),
     row_total env (take (Suc d) ks) (rows ! j))"
proof (cases ks)
  case Nil
  with assms(1) show ?thesis by simp
next
  case (Cons k ks')
  let ?r = "rows ! j"
  let ?v = "to_number env (row_get ?r k)"
  show ?thesis
  proof (cases d)
    case 0
    then show ?thesis
      using Cons assms(2) by (simp add: Let_def)
  next
    case (Suc d')
    with assms(1) Cons have d': "d' < length ks'"
      by simp
    from assms(3) Cons Suc have fin: "is_fin (sum_from env ?v (take (Suc d') ks') ?r)"
      by simp
    then have v: "is_fin ?v"
      by (rule sum_from_fin)
    have "stack env ks rows ! d ! j = stack env ks [?r] ! d ! 0"
      using assms(1,2) by (rule stack_nth)
    also have "\<dots> = stack_next env [(Fin 0, ?v)] ks' [?r] ! d' ! 0"
      using Cons Suc by (simp add: Let_def)
    also have "\<dots> = (sum_from env ?v (take d' ks') ?r, sum_from env ?v (take (Suc d') ks') ?r)"
      using d' v fin by (rule stack_next_row_total)
    finally show ?thesis
      using Cons Suc by simp
  qed
qed

lemma stacked_entry_valid:
  assumes "isStacked props" and "d < length (yFields props)" and "j < length (data props)"
  shows "isValidSeries (transformedData env props ! d ! j) =
    is_fin (snd (stack env (yFields props) (data props) ! d ! j))"
proof -
  let ?st = "stack env (yFields props) (data props)"
  have d: "d < length ?st"
    using assms(2) by (simp add: length_stack_outer)
  then have "?st ! d \<in> set ?st"
    by simp
  then have "length (?st ! d) = length (data props)"
    by (rule length_stack)
  with assms(3) have j: "j < length (?st ! d)"
    by simp
  obtain y0 y1 where p: "?st ! d ! j = (y0, y1)"
    by (cases "?st ! d ! j")
  have "transformedData env props ! d ! j = SPair y0 y1"
    using assms(1) d j p by (simp add: transformedData_def)
  then show ?thesis
    by (simp add: p isFinite_JNum)
qed

text \<open>
  Claim C7. The render of the points never raises. It gives one list of entries per
  transformed series and one entry per row, and an entry holds a mark exactly when its
  series value is valid. For grouped data the entry for a field and a row holds a mark
  exactly when the cell of the row at the field is a finite number or a date: a string or
  a missing cell gives no mark, and the entries beside it are not affected. For stacked
  data the entry holds a mark exactly when its upper value \<open>y1\<close> is a finite number.
  That value is the cell read as a number for the first field, and the cell read as a
  number plus the entry's lower value \<open>y0\<close> for a later field; so a cell that is not a
  finite number when read as a number gives no mark, and an entry of a row whose
  cumulative sum up to its field is a finite number holds a mark.
\<close>

theorem Points_marks_exactly_valid_series:
  "\<exists>out. Points env props = Inr out
     \<and> map (map emitted) (g_marks out) = map (map isValidSeries) (transformedData env props)
     \<and> length (g_marks out) = length (yFields props)
     \<and> (\<forall>d < length (yFields props). length (g_marks out ! d) = length (data props))
     \<and> (\<forall>d < length (yFields props). \<forall>j < length (data props).
          (\<not> isStacked props \<longrightarrow>
             emitted (g_marks out ! d ! j) =
               (isFinite (row_get (data props ! j) (yFields props ! d))
                \<or> isDate (row_get (data props ! j) (yFields props ! d))))
        \<and> (isStacked props \<longrightarrow>
             emitted (g_marks out ! d ! j) =
               is_fin (snd (stack env (yFields props) (data props) ! d ! j))
           \<and> (d = 0 \<longrightarrow>
                snd (stack env (yFields props) (data props) ! d ! j) =
                  to_number env (row_get (data props ! j) (yFields props ! d)))
           \<and> (0 < d \<longrightarrow>
                snd (stack env (yFields props) (data props) ! d ! j) =
                  js_add env (to_number env (row_get (data props ! j) (yFields props ! d)))
                    (fst (stack env (yFields props) (data props) ! d ! j)))
           \<and> (\<not> is_fin (to_number env (row_get (data props ! j) (yFields props ! d))) \<longrightarrow>
                \<not> emitted (g_marks out ! d ! j))
           \<and> (is_fin (row_total env (take (Suc d) (yFields props)) (data props ! j)) \<longrightarrow>
                emitted (g_marks out ! d ! j))))"
proof -
  let ?td = "transformedData env props"
  let ?marks = "marks_of env props (new_yScale env props) ?td"
  let ?st = "stack env (yFields props) (data props)"
  have em: "emitted (?marks ! d ! j) = isValidSeries (?td ! d ! j)"
    if "d < length (yFields props)" "j < length (data props)" for d j
  proof -
    have d: "d < length ?td"
      using that(1) by (simp add: length_transformedData)
    have j: "j < length (?td ! d)"
      using that by (simp add: nth_transformedData_length)
    show ?thesis
      using nth_marks_of [OF d j] by simp
  qed
  have len: "length (?marks ! d) = length (data props)" if "d < length (yFields props)" for d
  proof -
    have "d < length ?td"
      using that by (simp add: length_transformedData)
    then have "length (?marks ! d) = length (?td ! d)"
      by (simp add: marks_of_def nth_enumerate_eq)
    then show ?thesis
      using that by (simp add: nth_transformedData_length)
  qed
  have grouped: "emitted (?marks ! d ! j) =
      (isFinite (row_get (data props ! j) (yFields props ! d))
       \<or> isDate (row_get (data props ! j) (yFields props ! d)))"
    if "\<not> isStacked props" "d < length (yFields props)" "j < length (data props)" for d j
    using em [OF that(2,3)] nth_grouped [OF that] by simp
  have stacked: "emitted (?marks ! d ! j) = is_fin (snd (?st ! d ! j))"
    if "isStacked props" "d < length (yFields props)" "j < length (data props)" for d j
    using em [OF that(2,3)] stacked_entry_valid [OF that] by simp
  have entry0: "snd (?st ! 0 ! j) = to_number env (row_get (data props ! j) (yFields props ! 0))"
    if "yFields props \<noteq> []" "j < length (data props)" for j
    using stack_entry [of 0 "yFields props" j "data props" env] that by simp
  have entry: "snd (?st ! d ! j) =
      js_add env (to_number env (row_get (data props ! j) (yFields props ! d))) (fst (?st ! d ! j))"
    if "d < length (yFields props)" "j < length (data props)" "0 < d" for d j
    using stack_entry [OF that(1,2)] that(3) by blast
  have bad: "\<not> emitted (?marks ! d ! j)"
    if "isStacked props" "d < length (yFields props)" "j < length (data props)"
      "\<not> is_fin (to_number env (row_get (data props ! j) (yFields props ! d)))" for d j
  proof (cases "d = 0")
    case True
    then show ?thesis
      using stacked [OF that(1-3)] entry0 [of j] that by auto
  next
    case False
    then have "snd (?st ! d ! j) =
        js_add env (to_number env (row_get (data props ! j) (yFields props ! d))) (fst (?st ! d ! j))"
      using entry [OF that(2,3)] by simp
    then have "\<not> is_fin (snd (?st ! d ! j))"
      using that(4) by (auto dest: js_add_fin)
    then show ?thesis
      using stacked [OF that(1-3)] by simp
  qed
  have good: "emitted (?marks ! d ! j)"
    if "isStacked props" "d < length (yFields props)" "j < length (data props)"
      "is_fin (row_total env (take (Suc d) (yFields props)) (data props ! j))" for d j
    using stacked [OF that(1-3)] stack_row_total [OF that(2-4)] that(4) by simp
  show ?thesis
    using len grouped stacked entry0 entry bad good
    by (auto simp add: Points_eq marks_of_valid length_marks_of length_transformedData)
qed

theorem Points_marks_exactly_valid_series_witness:
  "(\<exists>out. Points example_runtime points_malformed = Inr out
      \<and> map (map emitted) (g_marks out) = [[True, False, False], [True, True, True]])
   \<and> (\<exists>out. Points example_runtime points_malformed_stacked = Inr out
      \<and> map (map emitted) (g_marks out) = [[True, False, False], [True, True, True]])"
proof -
  obtain out where out: "Points example_runtime points_malformed = Inr out"
    and marks: "map (map emitted) (g_marks out) =
      map (map isValidSeries) (transformedData example_runtime points_malformed)"
    using Points_marks_exactly_valid_series [of example_runtime points_malformed] by blast
  have "map (map isValidSeries) (transformedData example_runtime points_malformed) =
      [[True, False, False], [True, True, True]]"
    by (simp add: transformedData_def groupByFields_def points_malformed_def points_example_def
        row_get_def)
  with out marks have one: "\<exists>out. Points example_runtime points_malformed = Inr out
      \<and> map (map emitted) (g_marks out) = [[True, False, False], [True, True, True]]"
    by simp
  obtain out' where out': "Points example_runtime points_malformed_stacked = Inr out'"
    and marks': "map (map emitted) (g_marks out') =
      map (map isValidSeries) (transformedData example_runtime points_malformed_stacked)"
    using Points_marks_exactly_valid_series [of example_runtime points_malformed_stacked] by blast
  have "map (map isValidSeries) (transformedData example_runtime points_malformed_stacked) =
      [[True, False, False], [True, True, True]]"
    by (simp add: transformedData_def points_malformed_stacked_def points_malformed_def
        points_example_def row_get_def example_runtime_def stack_point_def Let_def)
  with out' marks' have two: "\<exists>out. Points example_runtime points_malformed_stacked = Inr out
      \<and> map (map emitted) (g_marks out) = [[True, False, False], [True, True, True]]"
    by simp
  from one two show ?thesis by simp
qed

subsection \<open>Colors\<close>

lemma js_rem_nat:
  assumes "0 \<le> s" and "0 < n"
  shows "js_rem (Fin (of_int s)) n = Fin (of_int (s mod int n))"
proof -
  have fl: "\<lfloor>real_of_int s / real n\<rfloor> = s div int n"
    using floor_divide_of_int_eq [of s "int n", where ?'a = real] by simp
  have "real_of_int s - real n * of_int (s div int n) = of_int (s mod int n)"
    by (simp add: minus_mult_div_eq_mod [symmetric, of s "int n"])
  moreover have "sgn (real_of_int s) * real_of_int (s mod int n) = real_of_int (s mod int n)"
    using assms by (cases "s = 0") simp_all
  ultimately show ?thesis
    using assms by (simp add: fl abs_of_nonneg)
qed

lemma palette_default:
  assumes "colors \<noteq> []" and "0 \<le> s"
  shows "js_index colors (js_rem (Fin (of_int s)) (length colors)) = Some (palette_cycle colors s)"
proof -
  let ?n = "int (length colors)"
  from assms(1) have n: "0 < length colors"
    by simp
  have lo: "0 \<le> s mod ?n"
    using n by simp
  have "s mod ?n < ?n"
    using n by simp
  then have hi: "nat (s mod ?n) < length colors"
    using lo by linarith
  have r: "js_rem (Fin (of_int s)) (length colors) = Fin (of_int (s mod ?n))"
    using assms(2) n by (rule js_rem_nat)
  have "js_index colors (Fin (of_int (s mod ?n))) = Some (colors ! nat (s mod ?n))"
    using lo hi by (simp add: js_nth_def)
  then show ?thesis
    unfolding r palette_cycle_def .
qed

text \<open>
  Claim C10, as stated: the color of the mark of series \<open>d\<close> is the palette's color at
  \<open>(d + colorOffset) mod palette.length\<close> whenever the color map has no entry for the
  field. With the palette of three colors and an offset of -1 the claim names
  \<open>blue\<close> for series 0, and the render gives the mark no color: the remainder
  \<^verbatim>\<open>%\<close> of -1 is -1, and the palette has nothing there. With an offset of one
  half, and with an empty palette, no mark has a color.
\<close>

theorem Points_color_counterexample:
  "map (map (map_option mark_color)) (g_marks (projr (Points example_runtime points_offset))) =
     [[Some None, Some None],
      [Some (Some (ColorString ''red'')), Some (Some (ColorString ''red''))]]
   \<and> colorMap_entry points_offset 0 = None
   \<and> palette_cycle (palette points_offset) (0 + (- 1)) = ''blue''
   \<and> map (map (map_option mark_color)) (g_marks (projr (Points example_runtime points_half))) =
     [[Some None, Some None], [Some None, Some None]]
   \<and> map (map (map_option mark_color)) (g_marks (projr (Points example_runtime points_no_palette))) =
     [[Some None, Some None], [Some None, Some None]]"
  by (simp add: Points_eq marks_of_def transformedData_def points_offset_def points_half_def
      points_no_palette_def points_example_def example_runtime_def
      Point_of_def lodash_get_def js_nth_def colorMap_entry_def
      palette_cycle_def row_get_def Let_def stack_point_def enumerate_eq_zip)

text \<open>
  Claim C10, amended. For a rendered entry of series \<open>d\<close>: when the color map resolves
  a value for the field of the series, the color of the mark is that value; when it
  resolves none, the palette is not empty, the color offset is an integer, and
  \<open>d + colorOffset\<close> is not negative and is added without rounding (as integers below
  \<open>2^53\<close> are), the color is the palette's at \<open>(d + colorOffset) mod palette.length\<close>.
\<close>

theorem Points_color_amended:
  assumes "d < length (yFields props)" and "j < length (data props)"
    and "isValidSeries (transformedData env props ! d ! j)"
  shows "\<exists>out m. Points env props = Inr out \<and> g_marks out ! d ! j = Some m
    \<and> (\<forall>c. colorMap_entry props d = Some c \<longrightarrow> mark_color m = Some c)
    \<and> (\<forall>c. colorMap_entry props d = None \<and> palette props \<noteq> []
          \<and> colorOffset props = Fin (of_int c)
          \<and> num_add env (real d) (of_int c) = Fin (of_int (int d + c))
          \<and> 0 \<le> int d + c
         \<longrightarrow> mark_color m = Some (ColorString (palette_cycle (palette props) (int d + c))))"
proof -
  let ?td = "transformedData env props"
  let ?yS = "new_yScale env props"
  let ?m = "Point_of env props ?yS d j (data props ! j) (?td ! d ! j)"
  have d: "d < length ?td"
    using assms(1) by (simp add: length_transformedData)
  have j: "j < length (?td ! d)"
    using assms(1,2) by (simp add: nth_transformedData_length)
  have mark: "marks_of env props ?yS ?td ! d ! j = Some ?m"
    using nth_marks_of [OF d j] assms(3) by simp
  have path: "js_nth (yFields props) d = Some (yFields props ! d)"
    using assms(1) by (simp add: js_nth_def)
  have c1: "mark_color ?m = Some c" if "colorMap_entry props d = Some c" for c
    using that
    by (auto simp add: Point_of_def path lodash_get_def colorMap_entry_def split: option.splits)
  have c2: "mark_color ?m = Some (ColorString (palette_cycle (palette props) (int d + c)))"
    if "colorMap_entry props d = None" "palette props \<noteq> []" "colorOffset props = Fin (of_int c)"
      "num_add env (real d) (of_int c) = Fin (of_int (int d + c))" "0 \<le> int d + c" for c
  proof -
    have "js_add env (Fin (real d)) (colorOffset props) = Fin (of_int (int d + c))"
      using that(3,4) by simp
    then have "js_index (palette props)
        (js_rem (js_add env (Fin (real d)) (colorOffset props)) (length (palette props))) =
        Some (palette_cycle (palette props) (int d + c))"
      using palette_default [OF that(2,5)] by simp
    then show ?thesis
      using that(1)
      by (auto simp add: Point_of_def path lodash_get_def colorMap_entry_def split: option.splits)
  qed
  show ?thesis
    using mark c1 c2 by (simp add: Points_eq)
qed

theorem Points_color_amended_witness:
  "(\<exists>out m. Points example_runtime points_example = Inr out \<and> g_marks out ! 1 ! 0 = Some m
      \<and> mark_color m = Some (ColorString ''green''))
   \<and> (\<exists>out m. Points example_runtime points_mapped = Inr out \<and> g_marks out ! 1 ! 0 = Some m
      \<and> mark_color m = Some (ColorString ''#abc123''))"
proof -
  have d: "1 < length (yFields points_example)" "1 < length (yFields points_mapped)"
    by (simp_all add: points_example_def points_mapped_def)
  have j: "0 < length (data points_example)" "0 < length (data points_mapped)"
    by (simp_all add: points_example_def points_mapped_def)
  have v: "isValidSeries (transformedData example_runtime points_example ! 1 ! 0)"
    by (simp add: transformedData_def points_example_def row_get_def Let_def stack_point_def
        example_runtime_def)
  have v': "isValidSeries (transformedData example_runtime points_mapped ! 1 ! 0)"
    by (simp add: transformedData_def points_example_def points_mapped_def row_get_def Let_def
        stack_point_def example_runtime_def)
  have e: "colorMap_entry points_example 1 = None \<and> palette points_example \<noteq> []
      \<and> colorOffset points_example = Fin (of_int 0)
      \<and> num_add example_runtime (real 1) (of_int 0) = Fin (of_int (int 1 + 0))
      \<and> 0 \<le> int 1 + 0"
    by (simp add: colorMap_entry_def points_example_def example_runtime_def)
  have c: "palette_cycle (palette points_example) (int 1 + 0) = ''green''"
    by (simp add: palette_cycle_def points_example_def)
  have e': "colorMap_entry points_mapped 1 = Some (ColorString ''#abc123'')"
    by (simp add: colorMap_entry_def points_example_def points_mapped_def)
  have one: "\<exists>out m. Points example_runtime points_example = Inr out
      \<and> g_marks out ! 1 ! 0 = Some m \<and> mark_color m = Some (ColorString ''green'')"
    using Points_color_amended [OF d(1) j(1) v] e c by (metis One_nat_def)
  have two: "\<exists>out m. Points example_runtime points_mapped = Inr out
      \<and> g_marks out ! 1 ! 0 = Some m \<and> mark_color m = Some (ColorString ''#abc123'')"
    using Points_color_amended [OF d(2) j(2) v'] e' by (metis One_nat_def)
  from one two show ?thesis by simp
qed

subsection \<open>The upper bound of the stacked domain\<close>

lemma foldl_max_step_Fin:
  "foldl max_step (Some (Fin m)) (map Fin xs) = Some (Fin (Max (set (m # xs))))"
proof (induction xs arbitrary: m)
  case Nil
  then show ?case by simp
next
  case (Cons a xs)
  have "max_step (Some (Fin m)) (Fin a) = Some (Fin (max m a))"
    by (simp add: max_def)
  then have "foldl max_step (Some (Fin m)) (map Fin (a # xs)) = Some (Fin (Max (set (max m a # xs))))"
    by (simp add: Cons.IH)
  also have "Max (set (max m a # xs)) = Max (set (m # a # xs))"
    by (cases "xs = []") (simp_all add: max.assoc)
  finally show ?case .
qed

lemma lodash_max_Fin: "xs \<noteq> [] \<Longrightarrow> lodash_max (map Fin xs) = Some (Fin (Max (set xs)))"
  by (cases xs) (simp_all add: lodash_max_def foldl_max_step_Fin)

lemma flatten_pairs_Fin:
  "flatten_pairs (Some (map (\<lambda>r. (Fin (lo r), Fin (hi r))) rows)) =
    map Fin (concat (map (\<lambda>r. [lo r, hi r]) rows))"
  by (induction rows) auto

lemma Max_pairs:
  assumes "rows \<noteq> []" and "\<And>r. r \<in> set rows \<Longrightarrow> lo r \<le> (hi r :: real)"
  shows "Max (set (concat (map (\<lambda>r. [lo r, hi r]) rows))) = Max (set (map hi rows))"
proof (rule Max_eqI)
  show "finite (set (concat (map (\<lambda>r. [lo r, hi r]) rows)))"
    by simp
  have ne: "set (map hi rows) \<noteq> {}"
    using assms(1) by simp
  show "v \<le> Max (set (map hi rows))" if "v \<in> set (concat (map (\<lambda>r. [lo r, hi r]) rows))" for v
  proof -
    from that obtain r where r: "r \<in> set rows" and v: "v = lo r \<or> v = hi r"
      by auto
    have "hi r \<le> Max (set (map hi rows))"
      using r by (intro Max_ge) auto
    with v assms(2) [OF r] show ?thesis
      by auto
  qed
  have "Max (set (map hi rows)) \<in> set (map hi rows)"
    using ne by (intro Max_in) auto
  then show "Max (set (map hi rows)) \<in> set (concat (map (\<lambda>r. [lo r, hi r]) rows))"
    by auto
qed

text \<open>
  The last entry of a row whose cumulative sum is a finite number: two finite numbers,
  the upper one the sum, and in order when the last value is not negative.
\<close>

lemma last_entry:
  assumes mono: "add_monotone env" and ks: "ks \<noteq> []" and j: "j < length rows"
    and fin: "is_fin (row_total env ks (rows ! j))"
    and nonneg: "0 \<le> fin_value (to_number env (row_get (rows ! j) (last ks)))"
  shows "\<exists>lo. stack env ks rows ! (length ks - 1) ! j =
      (Fin lo, Fin (fin_value (row_total env ks (rows ! j))))
    \<and> lo \<le> fin_value (row_total env ks (rows ! j))"
proof -
  let ?r = "rows ! j"
  let ?d = "length ks - 1"
  have d: "?d < length ks"
    using ks by simp
  have tk: "take (Suc ?d) ks = ks"
    using ks by simp
  obtain t where t: "row_total env ks ?r = Fin t"
    using fin by (auto simp add: is_fin_conv)
  have entry: "stack env ks rows ! ?d ! j =
      (if ?d = 0 then Fin 0 else row_total env (take ?d ks) ?r, Fin t)"
    using stack_row_total [OF d j] fin t by (simp add: tk)
  show ?thesis
  proof (cases "?d = 0")
    case True
    then obtain k where k: "ks = [k]"
      using ks by (cases ks) auto
    then have "to_number env (row_get ?r (last ks)) = Fin t"
      using t by simp
    with nonneg have "0 \<le> t"
      by simp
    with entry True t show ?thesis
      by simp
  next
    case False
    have split: "ks = butlast ks @ [last ks]"
      using ks by simp
    have bne: "butlast ks \<noteq> []"
      using False ks by (cases ks) auto
    have tb: "take ?d ks = butlast ks"
      by (simp add: butlast_conv_take)
    have "row_total env ks ?r =
        js_add env (to_number env (row_get ?r (last ks))) (row_total env (butlast ks) ?r)"
      using row_total_snoc [OF bne, of env "last ks" ?r] split by simp
    with t have sum: "js_add env (to_number env (row_get ?r (last ks)))
        (row_total env (butlast ks) ?r) = Fin t"
      by simp
    then have "is_fin (to_number env (row_get ?r (last ks))) \<and> is_fin (row_total env (butlast ks) ?r)"
      using js_add_fin [of env "to_number env (row_get ?r (last ks))" "row_total env (butlast ks) ?r"]
      by simp
    then obtain a b where a: "to_number env (row_get ?r (last ks)) = Fin a"
      and b: "row_total env (butlast ks) ?r = Fin b"
      by (auto simp add: is_fin_conv)
    from sum a b have "num_add env a b = Fin t"
      by simp
    moreover from nonneg a have "0 \<le> a"
      by simp
    ultimately have "b \<le> t"
      using mono by (auto simp add: add_monotone_def)
    with entry False t b tb show ?thesis
      by simp
  qed
qed

lemma computed_upper:
  assumes "add_monotone env" and "data props \<noteq> []" and "yFields props \<noteq> []"
    and fin: "\<forall>r \<in> set (data props). is_fin (row_total env (yFields props) r)"
    and nonneg: "\<forall>r \<in> set (data props).
      0 \<le> fin_value (to_number env (row_get r (last (yFields props))))"
  shows "lodash_max (flatten_pairs (lodash_last (stack env (yFields props) (data props)))) =
    Some (Fin (max_row_total env props))"
proof -
  let ?ks = "yFields props" and ?rows = "data props"
  let ?st = "stack env ?ks ?rows"
  let ?hi = "\<lambda>r. fin_value (row_total env ?ks r)"
  let ?lo = "\<lambda>r. fin_value (fst (stack env ?ks [r] ! (length ?ks - 1) ! 0))"
  have d: "length ?ks - 1 < length ?ks"
    using assms(3) by simp
  have ne: "?st \<noteq> []"
    using assms(3) length_stack_outer [of env ?ks ?rows] by auto
  then have la: "lodash_last ?st = Some (?st ! (length ?ks - 1))"
    by (cases ?st) (simp_all add: last_conv_nth length_stack_outer [of env ?ks ?rows, symmetric])
  have "?st ! (length ?ks - 1) \<in> set ?st"
    using d by (simp add: length_stack_outer)
  then have len: "length (?st ! (length ?ks - 1)) = length ?rows"
    by (rule length_stack)
  have entry: "?st ! (length ?ks - 1) ! j = (Fin (?lo (?rows ! j)), Fin (?hi (?rows ! j)))
      \<and> ?lo (?rows ! j) \<le> ?hi (?rows ! j)" if jlt: "j < length ?rows" for j
  proof -
    have r: "?rows ! j \<in> set ?rows"
      using jlt by simp
    have "\<exists>lo. ?st ! (length ?ks - 1) ! j = (Fin lo, Fin (?hi (?rows ! j)))
        \<and> lo \<le> ?hi (?rows ! j)"
      using fin nonneg r by (intro last_entry [OF assms(1,3) jlt]) auto
    then obtain lo where lo: "?st ! (length ?ks - 1) ! j = (Fin lo, Fin (?hi (?rows ! j)))"
      and le: "lo \<le> ?hi (?rows ! j)"
      by blast
    have "?st ! (length ?ks - 1) ! j = stack env ?ks [?rows ! j] ! (length ?ks - 1) ! 0"
      using d jlt by (rule stack_nth)
    then have "stack env ?ks [?rows ! j] ! (length ?ks - 1) ! 0 = (Fin lo, Fin (?hi (?rows ! j)))"
      using lo by (rule subst)
    then have "?lo (?rows ! j) = lo"
      by (simp only: fst_conv fin_value.simps)
    with lo le show ?thesis
      by (simp only:)
  qed
  have series: "?st ! (length ?ks - 1) = map (\<lambda>r. (Fin (?lo r), Fin (?hi r))) ?rows"
    using len entry by (simp add: list_eq_iff_nth_eq)
  have le: "?lo r \<le> ?hi r" if "r \<in> set ?rows" for r
    using that entry by (auto simp add: in_set_conv_nth)
  have nonempty: "concat (map (\<lambda>r. [?lo r, ?hi r]) ?rows) \<noteq> []"
    using assms(2) by (cases ?rows) auto
  have "Max (set (concat (map (\<lambda>r. [?lo r, ?hi r]) ?rows))) = Max (set (map ?hi ?rows))"
    using assms(2) le by (rule Max_pairs)
  then show ?thesis
    unfolding la series flatten_pairs_Fin lodash_max_Fin [OF nonempty]
    by (simp add: max_row_total_def)
qed

lemma domain_lower_first:
  "domain_lower s = (case ydomain s of [] \<Rightarrow> None | l # ls \<Rightarrow> l)"
  by (cases "ydomain s") (simp_all add: domain_lower_def js_nth_def)

text \<open>
  Claim C2, as stated: for stacked data the upper bound of the new domain is the maximum
  over the rows of the sum of the row's y values, unless an override is given. For the
  one row with the y values 5, -2 and -1 the sum is 2, and the render sets the bound 3:
  the last stacked series is the pair \<open>[3, 2]\<close>, and the bound is the greatest number
  of the flattened pairs.
\<close>

theorem Points_stacked_upper_counterexample:
  "ydomain (g_yScale (projr (Points example_runtime points_negative))) =
     [Some (Fin 0), Some (Fin 3)]
   \<and> claimed_upper example_runtime points_negative = Some (Fin 2)"
  by (simp add: Points_eq new_yScale_def stacked_upper_def js_or_def lodash_max_def
      points_negative_def points_example_def js_nth_def Let_def stack_point_def row_get_def
      example_runtime_def claimed_upper_def max_row_total_def domain_lower_def)

text \<open>
  Claim C2, amended. For stacked data the new domain of the y scale is the first bound of
  the old domain (\<^verbatim>\<open>undefined\<close> when the old domain is empty) and an upper bound. An override that is a number other than 0 and
  \<^verbatim>\<open>NaN\<close> is the upper bound as it is. With no override, at least one row and one
  y field, the cumulative sum of every row a finite number (the y values read as numbers
  and added in the order of the fields, as doubles are) and no negative value in the last
  y field, the upper bound is the maximum over the rows of the cumulative sum of the row.
\<close>

theorem Points_stacked_upper_amended:
  assumes "isStacked props"
  shows "\<exists>out up. Points env props = Inr out
    \<and> ydomain (g_yScale out) =
        [case ydomain (yScale props) of [] \<Rightarrow> None | l # ls \<Rightarrow> l, up]
    \<and> (truthy (yStackedMax props) \<longrightarrow> up = yStackedMax props)
    \<and> (yStackedMax props = None \<and> add_monotone env
        \<and> data props \<noteq> [] \<and> yFields props \<noteq> []
        \<and> (\<forall>r \<in> set (data props). is_fin (row_total env (yFields props) r))
        \<and> (\<forall>r \<in> set (data props).
              0 \<le> fin_value (to_number env (row_get r (last (yFields props)))))
       \<longrightarrow> up = Some (Fin (max_row_total env props)))"
proof -
  have dom: "ydomain (new_yScale env props) =
      [case ydomain (yScale props) of [] \<Rightarrow> None | l # ls \<Rightarrow> l, stacked_upper env props]"
    using assms by (simp add: new_yScale_def domain_lower_first)
  have over: "stacked_upper env props = yStackedMax props" if "truthy (yStackedMax props)"
    using that by (simp add: stacked_upper_def js_or_def)
  have comp: "stacked_upper env props = Some (Fin (max_row_total env props))"
    if "yStackedMax props = None" "add_monotone env" "data props \<noteq> []" "yFields props \<noteq> []"
      "\<forall>r \<in> set (data props). is_fin (row_total env (yFields props) r)"
      "\<forall>r \<in> set (data props). 0 \<le> fin_value (to_number env (row_get r (last (yFields props))))"
    using that computed_upper [of env props] by (simp add: stacked_upper_def js_or_def)
  show ?thesis
    using dom over comp by (simp add: Points_eq)
qed

lemma example_runtime_monotone: "add_monotone example_runtime"
  by (simp add: add_monotone_def example_runtime_def)

lemma max_row_total_example: "max_row_total example_runtime points_example = 4"
  by (simp add: max_row_total_def points_example_def row_get_def example_runtime_def)

theorem Points_stacked_upper_amended_witness:
  "(\<exists>out. Points example_runtime points_example = Inr out
      \<and> ydomain (g_yScale out) = [Some (Fin 0), Some (Fin 4)])
   \<and> (\<exists>out. Points example_runtime (points_example\<lparr>yStackedMax := Some (Fin 7)\<rparr>) = Inr out
      \<and> ydomain (g_yScale out) = [Some (Fin 0), Some (Fin 7)])"
proof -
  let ?p = "points_example\<lparr>yStackedMax := Some (Fin 7)\<rparr>"
  have s: "isStacked points_example" "isStacked ?p"
    by (simp_all add: points_example_def)
  have lower: "(case ydomain (yScale points_example) of [] \<Rightarrow> None | l # ls \<Rightarrow> l) = Some (Fin 0)"
    "(case ydomain (yScale ?p) of [] \<Rightarrow> None | l # ls \<Rightarrow> l) = Some (Fin 0)"
    by (simp_all add: points_example_def)
  have h: "yStackedMax points_example = None \<and> add_monotone example_runtime
      \<and> data points_example \<noteq> [] \<and> yFields points_example \<noteq> []
      \<and> (\<forall>r \<in> set (data points_example).
            is_fin (row_total example_runtime (yFields points_example) r))
      \<and> (\<forall>r \<in> set (data points_example).
            0 \<le> fin_value (to_number example_runtime (row_get r (last (yFields points_example)))))"
    by (simp add: example_runtime_monotone) (simp add: points_example_def row_get_def example_runtime_def)
  have t: "truthy (yStackedMax ?p) \<and> yStackedMax ?p = Some (Fin 7)"
    by simp
  have one: "\<exists>out. Points example_runtime points_example = Inr out
      \<and> ydomain (g_yScale out) = [Some (Fin 0), Some (Fin 4)]"
    using Points_stacked_upper_amended [OF s(1), of example_runtime] h max_row_total_example
      lower(1) by metis
  have two: "\<exists>out. Points example_runtime ?p = Inr out
      \<and> ydomain (g_yScale out) = [Some (Fin 0), Some (Fin 7)]"
    using Points_stacked_upper_amended [OF s(2), of example_runtime] t lower(2) by metis
  from one two show ?thesis by simp
qed

text \<open>An override of 0 is not used: the bound is the computed one.\<close>

lemma Points_zero_override_ignored:
  "ydomain (g_yScale (projr (Points example_runtime (points_example\<lparr>yStackedMax := Some (Fin 0)\<rparr>)))) =
     [Some (Fin 0), Some (Fin 4)]"
  by (simp add: Points_eq new_yScale_def stacked_upper_def js_or_def lodash_max_def
      points_example_def js_nth_def Let_def stack_point_def row_get_def example_runtime_def
      domain_lower_def)

end
